theory Spec2Isabelle
  imports Main "HOL-Library.Sublist" "HOL-Library.Multiset" "HOL-Library.Word"
begin

unbundle bit_operations_syntax

section \<open>Python values\<close>

text \<open>
  A Python \<open>str\<close> is a sequence of Unicode code points, and \<open>len\<close>, slicing and \<open>in\<close>
  count code points. It is modelled as a list of naturals; \<open>asc\<close> embeds an ASCII literal.
\<close>

type_synonym pystr = "nat list"

definition asc :: "string \<Rightarrow> pystr" where
  "asc s = map of_char s"

text \<open>The exceptions that the modelled code can meet.\<close>

datatype py_error =
  ValueError | KeyError | UnicodeEncodeError | OverflowError
  | IntegrityError | OperationalError | OtherException

text \<open>\<open>s.startswith(p)\<close> and the substring test \<open>sub in s\<close>.\<close>

fun startswith :: "'a list \<Rightarrow> 'a list \<Rightarrow> bool" where
  "startswith s [] = True"
| "startswith [] (p # ps) = False"
| "startswith (c # cs) (p # ps) = (c = p \<and> startswith cs ps)"

fun py_in :: "'a list \<Rightarrow> 'a list \<Rightarrow> bool" where
  "py_in sub [] = startswith [] sub"
| "py_in sub (c # cs) = (startswith (c # cs) sub \<or> py_in sub cs)"

text \<open>\<open>str(n)\<close> for an integer: decimal digits, a minus sign for a negative number.\<close>

fun str_nat :: "nat \<Rightarrow> pystr" where
  "str_nat n = (if n < 10 then [48 + n] else str_nat (n div 10) @ [48 + n mod 10])"

declare str_nat.simps [simp del]

definition str_int :: "int \<Rightarrow> pystr" where
  "str_int i = (if i < 0 then 45 # str_nat (nat (- i)) else str_nat (nat i))"

text \<open>
  A \<open>dict\<close> keeps its keys in insertion order: an association list. The assignment
  \<open>d[k] = v\<close> overwrites the value of a key that is present and appends a new key.
\<close>

type_synonym ('k, 'v) pydict = "('k \<times> 'v) list"

fun dict_set :: "('k, 'v) pydict \<Rightarrow> 'k \<Rightarrow> 'v \<Rightarrow> ('k, 'v) pydict" where
  "dict_set [] k v = [(k, v)]"
| "dict_set ((k', v') # d) k v =
     (if k' = k then (k, v) # d else (k', v') # dict_set d k v)"

definition dict_keys :: "('k, 'v) pydict \<Rightarrow> 'k list" where
  "dict_keys d = map fst d"

definition dict_values :: "('k, 'v) pydict \<Rightarrow> 'v list" where
  "dict_values d = map snd d"

text \<open>\<open>d.get(k)\<close>: the value of the first (and only) entry of the key.\<close>

definition dict_get :: "('k, 'v) pydict \<Rightarrow> 'k \<Rightarrow> 'v option" where
  "dict_get d k = map_of d k"

section \<open>The library and the clock\<close>

text \<open>
  \<open>calculate_relevance_score\<close> calls three things that are not code of the repository:
  \<open>str.lower\<close>, \<open>datetime.now().year\<close> and \<open>urlparse(url).netloc\<close>. They are the fields
  of the environment the scorer runs in; \<open>urlparse\<close> raises \<open>ValueError\<close> on some inputs,
  so its field returns an error or the network location.
\<close>

record environment =
  str_lower :: "pystr \<Rightarrow> pystr"
  current_year :: int
  urlparse_netloc :: "pystr \<Rightarrow> py_error + pystr"

text \<open>
  A concrete environment, used to run the model. \<open>ascii_lower\<close> is \<open>str.lower\<close> on ASCII
  text (code points above 127 are left as they are).
\<close>

definition ascii_lower :: "pystr \<Rightarrow> pystr" where
  "ascii_lower s = map (\<lambda>c. if 65 \<le> c \<and> c \<le> 90 then c + 32 else c) s"

text \<open>
  \<open>urlsplit_netloc\<close> follows \<open>urllib.parse.urlsplit\<close> of CPython as far as the network
  location goes: leading control characters and spaces are stripped, tab, CR and LF are
  removed, a leading scheme (an ASCII letter, then letters, digits, \<open>+\<close>, \<open>-\<close>, \<open>.\<close> up
  to the first colon) is cut off, and when the rest starts with \<open>//\<close> the netloc runs up
  to the first \<open>/\<close>, \<open>?\<close> or \<open>#\<close>. A netloc with \<open>[\<close> but no \<open>]\<close>, or \<open>]\<close> but no \<open>[\<close>,
  raises \<open>ValueError("Invalid IPv6 URL")\<close>. The later validation of the host
  (\<open>_check_bracketed_netloc\<close>, \<open>_checknetloc\<close>) varies with the version of the library
  and is the parameter \<open>host_ok\<close>.
\<close>

definition is_ascii_alpha :: "nat \<Rightarrow> bool" where
  "is_ascii_alpha c = ((65 \<le> c \<and> c \<le> 90) \<or> (97 \<le> c \<and> c \<le> 122))"

definition is_scheme_char :: "nat \<Rightarrow> bool" where
  "is_scheme_char c =
     (is_ascii_alpha c \<or> (48 \<le> c \<and> c \<le> 57) \<or> c = 43 \<or> c = 45 \<or> c = 46)"

definition strip_scheme :: "pystr \<Rightarrow> pystr" where
  "strip_scheme url =
     (let pre = takeWhile (\<lambda>c. c \<noteq> 58) url in
      if length pre < length url \<and> 0 < length pre
         \<and> is_ascii_alpha (hd url) \<and> list_all is_scheme_char pre
      then drop (length pre + 1) url
      else url)"

definition urlsplit_netloc :: "(pystr \<Rightarrow> bool) \<Rightarrow> pystr \<Rightarrow> py_error + pystr" where
  "urlsplit_netloc host_ok url0 =
     (let url1 = dropWhile (\<lambda>c. c \<le> 32) url0;
          url2 = filter (\<lambda>c. c \<noteq> 9 \<and> c \<noteq> 13 \<and> c \<noteq> 10) url1;
          url3 = strip_scheme url2
      in if take 2 url3 = [47, 47]
         then (let netloc = takeWhile (\<lambda>c. c \<noteq> 47 \<and> c \<noteq> 63 \<and> c \<noteq> 35) (drop 2 url3)
               in if (91 \<in> set netloc \<and> 93 \<notin> set netloc)
                     \<or> (93 \<in> set netloc \<and> 91 \<notin> set netloc)
                  then Inl ValueError
                  else if host_ok netloc then Inr netloc else Inl ValueError)
         else if host_ok [] then Inr [] else Inl ValueError)"

text \<open>
  In the concrete environment the later validation accepts every host, as the library
  does for an ASCII netloc without brackets.
\<close>

definition cpython :: "int \<Rightarrow> environment" where
  "cpython year =
     \<lparr> str_lower = ascii_lower,
       current_year = year,
       urlparse_netloc = urlsplit_netloc (\<lambda>netloc. True) \<rparr>"

section \<open>The relevance scorer (multi\_source\_ai\_digest.py)\<close>

text \<open>The four keyword tables and the source table, in the order the literals list them.\<close>

definition high_value_keywords :: "(string \<times> int) list" where
  "high_value_keywords =
     [(''openai'', 20), (''chatgpt'', 20), (''gpt'', 15), (''claude'', 15),
      (''gemini'', 15), (''llm'', 12), (''transformer'', 12), (''neural'', 10),
      (''breakthrough'', 15), (''launch'', 10), (''release'', 8), (''announces'', 8)]"

definition medium_value_keywords :: "(string \<times> int) list" where
  "medium_value_keywords =
     [(''artificial-intelligence'', 10), (''machine-learning'', 10), (''deep-learning'', 10),
      (''automation'', 8), (''robot'', 8), (''algorithm'', 6), (''data'', 4),
      (''startup'', 5), (''funding'', 6), (''investment'', 6), (''acquisition'', 8)]"

definition ai_companies :: "(string \<times> int) list" where
  "ai_companies =
     [(''google'', 10), (''microsoft'', 10), (''amazon'', 8), (''meta'', 8), (''facebook'', 8),
      (''nvidia'', 12), (''anthropic'', 15), (''mistral'', 12), (''huggingface'', 10),
      (''tesla'', 8), (''apple'', 8), (''samsung'', 6), (''intel'', 6)]"

definition tech_terms :: "(string \<times> int) list" where
  "tech_terms =
     [(''model'', 4), (''training'', 5), (''dataset'', 4), (''performance'', 4),
      (''research'', 5), (''paper'', 4), (''study'', 4), (''experiment'', 4)]"

definition source_bonus :: "(string \<times> int) list" where
  "source_bonus =
     [(''techcrunch.com'', 8), (''wired.com'', 10), (''theverge.com'', 8),
      (''venturebeat.com'', 7), (''technologyreview.com'', 12), (''arstechnica.com'', 9),
      (''zdnet.com'', 6), (''forbes.com'', 7), (''bloomberg.com'', 10)]"

type_synonym breakdown = "(pystr, int) pydict"

text \<open>
  One keyword loop: \<open>for keyword, points in table.items(): if keyword in content: ...\<close>,
  on the running pair of the score and the breakdown.
\<close>

fun check_keywords ::
  "string \<Rightarrow> (string \<times> int) list \<Rightarrow> pystr \<Rightarrow> int \<times> breakdown \<Rightarrow> int \<times> breakdown" where
  "check_keywords label [] content st = st"
| "check_keywords label ((keyword, points) # rest) content (score, bd) =
     check_keywords label rest content
       (if py_in (asc keyword) content
        then (score + points, dict_set bd (asc (label @ keyword)) points)
        else (score, bd))"

text \<open>The recency bonus: the current year in the URL, else the year before.\<close>

definition recency :: "int \<Rightarrow> pystr \<Rightarrow> int \<times> breakdown \<Rightarrow> int \<times> breakdown" where
  "recency year article_url st =
     (case st of (score, bd) \<Rightarrow>
        if py_in (str_int year) article_url
        then (score + 8, dict_set bd (asc ''Current year'') 8)
        else if py_in (str_int (year - 1)) article_url
        then (score + 4, dict_set bd (asc ''Recent year'') 4)
        else (score, bd))"

text \<open>The source loop leaves at its first match (\<open>break\<close>).\<close>

fun source_quality ::
  "(string \<times> int) list \<Rightarrow> pystr \<Rightarrow> int \<times> breakdown \<Rightarrow> int \<times> breakdown" where
  "source_quality [] domain st = st"
| "source_quality ((source, bonus) # rest) domain (score, bd) =
     (if py_in (asc source) domain
      then (score + bonus, dict_set bd (asc (''Source: '' @ source)) bonus)
      else source_quality rest domain (score, bd))"

definition base_relevance :: "int \<times> breakdown \<Rightarrow> int \<times> breakdown" where
  "base_relevance st =
     (case st of (score, bd) \<Rightarrow> (score + 5, dict_set bd (asc ''Base AI relevance'') 5))"

definition keyword_phase :: "pystr \<Rightarrow> int \<times> breakdown" where
  "keyword_phase content =
     check_keywords ''Tech: '' tech_terms content
       (check_keywords ''Company: '' ai_companies content
          (check_keywords ''Medium-value: '' medium_value_keywords content
             (check_keywords ''High-value: '' high_value_keywords content (0, []))))"

definition calculate_relevance_score ::
  "environment \<Rightarrow> pystr \<Rightarrow> pystr \<Rightarrow> py_error + (int \<times> breakdown)" where
  "calculate_relevance_score env article_url title =
     (let content_to_analyze = str_lower env (article_url @ asc '' '' @ title);
          st = recency (current_year env) article_url (keyword_phase content_to_analyze)
      in case urlparse_netloc env article_url of
           Inl e \<Rightarrow> Inl e
         | Inr netloc \<Rightarrow>
             Inr (base_relevance (source_quality source_bonus (str_lower env netloc) st)))"

section \<open>Ranking and selection (create\_comprehensive\_ai\_digest)\<close>

text \<open>A candidate is the tuple \<open>(source, url, title)\<close> a fetcher yields.\<close>

type_synonym candidate = "pystr \<times> pystr \<times> pystr"

type_synonym scored_article = "pystr \<times> pystr \<times> pystr \<times> int \<times> breakdown"

text \<open>
  The scoring loop appends one tuple for every candidate; an exception of the scorer
  leaves the loop and the function.
\<close>

fun score_articles :: "environment \<Rightarrow> candidate list \<Rightarrow> py_error + scored_article list" where
  "score_articles env [] = Inr []"
| "score_articles env ((source, url, title) # rest) =
     (case calculate_relevance_score env url title of
        Inl e \<Rightarrow> Inl e
      | Inr (score, bd) \<Rightarrow>
          (case score_articles env rest of
             Inl e \<Rightarrow> Inl e
           | Inr scored \<Rightarrow> Inr ((source, url, title, score, bd) # scored)))"

text \<open>The sort key \<open>lambda x: x[3]\<close>, and the candidate a scored tuple was made from.\<close>

definition score_key :: "scored_article \<Rightarrow> int" where
  "score_key x = fst (snd (snd (snd x)))"

definition candidate_of :: "scored_article \<Rightarrow> candidate" where
  "candidate_of x = (case x of (source, url, title, score, bd) \<Rightarrow> (source, url, title))"

text \<open>
  \<open>sorted(xs, key=key, reverse=True)\<close> is a stable sort by descending key: elements of
  equal key keep their order. It is the stable insertion sort on the negated key.
\<close>

definition sorted_reverse :: "('a \<Rightarrow> int) \<Rightarrow> 'a list \<Rightarrow> 'a list" where
  "sorted_reverse key xs = sort_key (\<lambda>x. - key x) xs"

text \<open>The slice \<open>xs[:n]\<close>; a negative \<open>n\<close> counts from the end.\<close>

definition slice_to :: "int \<Rightarrow> 'a list \<Rightarrow> 'a list" where
  "slice_to n xs = (if 0 \<le> n then take (nat n) xs else take (length xs - nat (- n)) xs)"

definition top_articles :: "scored_article list \<Rightarrow> int \<Rightarrow> scored_article list" where
  "top_articles scored_articles top_n = slice_to top_n (sorted_reverse score_key scored_articles)"

text \<open>\<open>all_articles\<close> is what \<open>fetch_all_ai_sources()\<close> returned.\<close>

definition create_comprehensive_ai_digest ::
  "environment \<Rightarrow> candidate list \<Rightarrow> int \<Rightarrow> py_error + scored_article list" where
  "create_comprehensive_ai_digest env all_articles top_n =
     (if all_articles = [] then Inr []
      else case score_articles env all_articles of
             Inl e \<Rightarrow> Inl e
           | Inr scored_articles \<Rightarrow> Inr (top_articles scored_articles top_n))"

section \<open>The digest of a string (hashlib.md5)\<close>

text \<open>
  \<open>s.encode()\<close> is the UTF-8 encoding of the code points (at most \<open>0x10FFFF\<close> in a
  Python string); a surrogate, \<open>0xD800\<close> to \<open>0xDFFF\<close>, raises \<open>UnicodeEncodeError\<close>.
\<close>

definition utf8_char :: "nat \<Rightarrow> py_error + nat list" where
  "utf8_char c =
     (if c < 128 then Inr [c]
      else if c < 2048 then Inr [192 + c div 64, 128 + c mod 64]
      else if c < 55296 \<or> (57343 < c \<and> c < 65536)
      then Inr [224 + c div 4096, 128 + (c div 64) mod 64, 128 + c mod 64]
      else if c < 65536 then Inl UnicodeEncodeError
      else Inr [240 + c div 262144, 128 + (c div 4096) mod 64, 128 + (c div 64) mod 64,
                128 + c mod 64])"

fun utf8_encode :: "pystr \<Rightarrow> py_error + nat list" where
  "utf8_encode [] = Inr []"
| "utf8_encode (c # cs) =
     (case utf8_char c of
        Inl e \<Rightarrow> Inl e
      | Inr bs \<Rightarrow> (case utf8_encode cs of Inl e \<Rightarrow> Inl e | Inr rest \<Rightarrow> Inr (bs @ rest)))"

text \<open>
  MD5 (RFC 1321) on 32-bit words: the message is padded with \<open>0x80\<close>, zeros and its
  length in bits as eight little-endian bytes, to a multiple of 64 bytes; every block
  of sixteen little-endian words goes through 64 steps; the digest is the four state
  words, little-endian, as 32 lower-case hexadecimal digits.
\<close>

definition md5_shifts :: "nat list" where
  "md5_shifts =
     [7, 12, 17, 22, 7, 12, 17, 22, 7, 12, 17, 22, 7, 12, 17, 22,
      5, 9, 14, 20, 5, 9, 14, 20, 5, 9, 14, 20, 5, 9, 14, 20,
      4, 11, 16, 23, 4, 11, 16, 23, 4, 11, 16, 23, 4, 11, 16, 23,
      6, 10, 15, 21, 6, 10, 15, 21, 6, 10, 15, 21, 6, 10, 15, 21]"

definition md5_K :: "32 word list" where
  "md5_K =
     [0xd76aa478, 0xe8c7b756, 0x242070db, 0xc1bdceee, 0xf57c0faf, 0x4787c62a, 0xa8304613,
      0xfd469501, 0x698098d8, 0x8b44f7af, 0xffff5bb1, 0x895cd7be, 0x6b901122, 0xfd987193,
      0xa679438e, 0x49b40821, 0xf61e2562, 0xc040b340, 0x265e5a51, 0xe9b6c7aa, 0xd62f105d,
      0x02441453, 0xd8a1e681, 0xe7d3fbc8, 0x21e1cde6, 0xc33707d6, 0xf4d50d87, 0x455a14ed,
      0xa9e3e905, 0xfcefa3f8, 0x676f02d9, 0x8d2a4c8a, 0xfffa3942, 0x8771f681, 0x6d9d6122,
      0xfde5380c, 0xa4beea44, 0x4bdecfa9, 0xf6bb4b60, 0xbebfbc70, 0x289b7ec6, 0xeaa127fa,
      0xd4ef3085, 0x04881d05, 0xd9d4d039, 0xe6db99e5, 0x1fa27cf8, 0xc4ac5665, 0xf4292244,
      0x432aff97, 0xab9423a7, 0xfc93a039, 0x655b59c3, 0x8f0ccc92, 0xffeff47d, 0x85845dd1,
      0x6fa87e4f, 0xfe2ce6e0, 0xa3014314, 0x4e0811a1, 0xf7537e82, 0xbd3af235, 0x2ad7d2bb,
      0xeb86d391]"

fun le_bytes :: "nat \<Rightarrow> nat \<Rightarrow> nat list" where
  "le_bytes 0 n = []"
| "le_bytes (Suc k) n = n mod 256 # le_bytes k (n div 256)"

definition md5_pad :: "nat list \<Rightarrow> nat list" where
  "md5_pad bs =
     (let n = length bs;
          zeros = (119 - n mod 64) mod 64
      in bs @ [128] @ replicate zeros 0 @ le_bytes 8 (8 * n))"

fun chunks :: "nat \<Rightarrow> nat \<Rightarrow> 'a list \<Rightarrow> 'a list list" where
  "chunks 0 k xs = []"
| "chunks (Suc n) k xs = take k xs # chunks n k (drop k xs)"

definition le_word :: "nat list \<Rightarrow> 32 word" where
  "le_word bs = foldr (\<lambda>b w. word_of_nat b + push_bit 8 w) bs 0"

type_synonym md5_state = "32 word \<times> 32 word \<times> 32 word \<times> 32 word"

definition md5_round :: "32 word list \<Rightarrow> md5_state \<Rightarrow> nat \<Rightarrow> md5_state" where
  "md5_round M st i =
     (case st of (a, b, c, d) \<Rightarrow>
        (let (f, g) =
               (if i < 16 then ((b AND c) OR (NOT b AND d), i)
                else if i < 32 then ((d AND b) OR (NOT d AND c), (5 * i + 1) mod 16)
                else if i < 48 then (b XOR c XOR d, (3 * i + 5) mod 16)
                else (c XOR (b OR NOT d), (7 * i) mod 16));
             f' = f + a + md5_K ! i + M ! g
         in (d, b + word_rotl (md5_shifts ! i) f', b, c)))"

definition md5_block :: "md5_state \<Rightarrow> nat list \<Rightarrow> md5_state" where
  "md5_block h block =
     (let M = map le_word (chunks 16 4 block) in
      case (h, foldl (md5_round M) h [0..<64]) of
        ((a0, b0, c0, d0), (a, b, c, d)) \<Rightarrow> (a0 + a, b0 + b, c0 + c, d0 + d))"

definition hex_digit :: "nat \<Rightarrow> nat" where
  "hex_digit n = (if n < 10 then 48 + n else 87 + n)"

definition word_hex :: "32 word \<Rightarrow> pystr" where
  "word_hex w =
     concat (map (\<lambda>i. let b = unat (take_bit 8 (drop_bit (8 * i) w))
                      in [hex_digit (b div 16), hex_digit (b mod 16)])
               [0, 1, 2, 3])"

definition md5_hexdigest :: "nat list \<Rightarrow> pystr" where
  "md5_hexdigest bs =
     (let padded = md5_pad bs in
      case foldl md5_block (0x67452301, 0xefcdab89, 0x98badcfe, 0x10325476)
             (chunks (length padded div 64) 64 padded) of
        (a, b, c, d) \<Rightarrow> word_hex a @ word_hex b @ word_hex c @ word_hex d)"

text \<open>\<open>hashlib.md5(url.encode()).hexdigest()\<close>.\<close>

definition url_md5 :: "pystr \<Rightarrow> py_error + pystr" where
  "url_md5 url =
     (case utf8_encode url of Inl e \<Rightarrow> Inl e | Inr bs \<Rightarrow> Inr (md5_hexdigest bs))"

section \<open>The article store (services/database.py)\<close>

text \<open>
  A row of the table \<open>articles\<close>, and the table with the counter that \<open>AUTOINCREMENT\<close>
  keeps (the largest id ever given). \<open>source_stats\<close> has one row for a source and a date.
\<close>

record article_row =
  a_id :: nat
  a_url :: pystr
  a_url_hash :: pystr
  a_title :: pystr
  a_content :: pystr
  a_summary :: pystr
  a_source :: pystr
  a_relevance_score :: int
  a_word_count :: int
  a_excerpt :: pystr
  a_domain :: pystr
  a_created_at :: nat
  a_updated_at :: nat

record database =
  articles_tbl :: "article_row list"
  articles_seq :: nat
  source_stats :: "((pystr \<times> pystr) \<times> (int \<times> int)) list"

definition empty_database :: database where
  "empty_database = \<lparr> articles_tbl = [], articles_seq = 0, source_stats = [] \<rparr>"

text \<open>
  The dict \<open>article_data\<close>, with strings and integers as values, as \<open>extract_article\<close>
  and the collector fill it: a key that is absent is \<open>None\<close> here, and
  \<open>article_data.get(key, default)\<close> reads it with a default.
\<close>

record article_data =
  d_url :: "pystr option"
  d_title :: "pystr option"
  d_content :: "pystr option"
  d_summary :: "pystr option"
  d_source :: "pystr option"
  d_relevance_score :: "int option"
  d_word_count :: "int option"
  d_excerpt :: "pystr option"
  d_domain :: "pystr option"

definition get_default :: "'a option \<Rightarrow> 'a \<Rightarrow> 'a" where
  "get_default field dflt = (case field of None \<Rightarrow> dflt | Some v \<Rightarrow> v)"

text \<open>
  \<open>_generate_url_hash\<close>: the digest function \<open>md5\<close>, in the program
  \<open>hashlib.md5(url.encode()).hexdigest()\<close> (\<open>url_md5\<close> above), gets the URL as it is.
\<close>

definition generate_url_hash :: "(pystr \<Rightarrow> py_error + pystr) \<Rightarrow> pystr \<Rightarrow> py_error + pystr" where
  "generate_url_hash md5 url = md5 url"

text \<open>The row that the \<open>INSERT\<close> of \<open>add_article\<close> writes.\<close>

definition inserted_row :: "nat \<Rightarrow> pystr \<Rightarrow> pystr \<Rightarrow> nat \<Rightarrow> article_data \<Rightarrow> article_row" where
  "inserted_row lastrowid url url_hash now data =
     \<lparr> a_id = lastrowid,
       a_url = url,
       a_url_hash = url_hash,
       a_title = get_default (d_title data) [],
       a_content = get_default (d_content data) [],
       a_summary = get_default (d_summary data) [],
       a_source = get_default (d_source data) [],
       a_relevance_score = get_default (d_relevance_score data) 0,
       a_word_count = get_default (d_word_count data) 0,
       a_excerpt = get_default (d_excerpt data) [],
       a_domain = get_default (d_domain data) [],
       a_created_at = now,
       a_updated_at = now \<rparr>"

text \<open>An integer that SQLite can store: 64 bits, signed.\<close>

definition sqlite_integer :: "int \<Rightarrow> bool" where
  "sqlite_integer i = (- 9223372036854775808 \<le> i \<and> i \<le> 9223372036854775807)"

text \<open>
  \<open>add_article\<close> at the time \<open>now\<close>: the \<open>SELECT\<close> by \<open>url_hash\<close> and the early return
  of the existing id, else the \<open>INSERT\<close>. The \<open>INSERT\<close> raises \<open>OverflowError\<close> when an
  integer parameter does not fit 64 bits, fails when \<open>AUTOINCREMENT\<close> has no id left,
  and fails on the \<open>UNIQUE\<close> column \<open>url\<close> when a row has the URL under another hash.
  The result is the id and the new database.
\<close>

definition add_article ::
  "(pystr \<Rightarrow> py_error + pystr) \<Rightarrow> nat \<Rightarrow> database \<Rightarrow> article_data
     \<Rightarrow> py_error + (nat \<times> database)" where
  "add_article md5 now db data =
     (case d_url data of
        None \<Rightarrow> Inl KeyError
      | Some url \<Rightarrow>
          (case generate_url_hash md5 url of
             Inl e \<Rightarrow> Inl e
           | Inr url_hash \<Rightarrow>
               (case find (\<lambda>r. a_url_hash r = url_hash) (articles_tbl db) of
                  Some existing \<Rightarrow> Inr (a_id existing, db)
                | None \<Rightarrow>
                    if \<not> (sqlite_integer (get_default (d_relevance_score data) 0)
                          \<and> sqlite_integer (get_default (d_word_count data) 0))
                    then Inl OverflowError
                    else if \<not> sqlite_integer (int (articles_seq db) + 1)
                    then Inl OperationalError
                    else if list_ex (\<lambda>r. a_url r = url) (articles_tbl db)
                    then Inl IntegrityError
                    else
                      (let lastrowid = articles_seq db + 1;
                           row = inserted_row lastrowid url url_hash now data
                       in Inr (lastrowid,
                               db\<lparr> articles_tbl := articles_tbl db @ [row],
                                   articles_seq := lastrowid \<rparr>)))))"

definition update_article_summary :: "nat \<Rightarrow> database \<Rightarrow> nat \<Rightarrow> pystr \<Rightarrow> database" where
  "update_article_summary now db article_id summary =
     db\<lparr> articles_tbl :=
           map (\<lambda>r. if a_id r = article_id
                    then r\<lparr> a_summary := summary, a_updated_at := now \<rparr> else r)
               (articles_tbl db) \<rparr>"

text \<open>\<open>INSERT OR REPLACE\<close>: the row of the same source and date goes, the new one comes.\<close>

definition update_source_stats ::
  "pystr \<Rightarrow> database \<Rightarrow> pystr \<Rightarrow> int \<Rightarrow> int \<Rightarrow> database" where
  "update_source_stats today db source articles_found articles_processed =
     db\<lparr> source_stats :=
           filter (\<lambda>row. fst row \<noteq> (source, today)) (source_stats db)
           @ [((source, today), (articles_found, articles_processed))] \<rparr>"

section \<open>The collector (main.py)\<close>

text \<open>
  The collaborators of \<open>DailyDigestBot\<close> and its configuration. The scorer it imports,
  the extractor and the summarizer may raise; \<open>timestamp\<close> is \<open>CURRENT_TIMESTAMP\<close> and
  \<open>today\<close> the date of the run.
\<close>

record services =
  relevance_score :: "pystr \<Rightarrow> pystr \<Rightarrow> py_error + (int \<times> breakdown)"
  extract_article :: "pystr \<Rightarrow> pystr \<Rightarrow> py_error + article_data"
  summarize_article :: "pystr \<Rightarrow> pystr \<Rightarrow> int \<Rightarrow> py_error + pystr"
  md5_hexdigest :: "pystr \<Rightarrow> py_error + pystr"
  summary_max_words :: int
  timestamp :: nat
  today :: pystr

text \<open>
  The state of the loop. \<open>calls\<close> records every call to the extractor, the store and
  the summarizer, with the candidate it was made for.
\<close>

datatype call = ExtractArticle | AddArticle | SummarizeArticle | UpdateArticleSummary

record collect_state =
  db :: database
  processed_by_source :: "(pystr, int) pydict"
  new_articles_count :: int
  calls :: "(candidate \<times> call) list"

definition record_call :: "candidate \<Rightarrow> call \<Rightarrow> collect_state \<Rightarrow> collect_state" where
  "record_call cand c st = st\<lparr> calls := calls st @ [(cand, c)] \<rparr>"

text \<open>
  The summary branch. An exception (\<open>Inl\<close>) carries the state reached when it was
  raised: \<open>article_data['title']\<close> raises \<open>KeyError\<close> before the summarizer is called.
\<close>

definition summarize_step ::
  "services \<Rightarrow> candidate \<Rightarrow> article_data \<Rightarrow> nat \<Rightarrow> collect_state
     \<Rightarrow> collect_state + collect_state" where
  "summarize_step svc cand article_data article_id st =
     (case d_content article_data of
        None \<Rightarrow> Inr st
      | Some content \<Rightarrow>
          if content \<noteq> [] \<and> 100 < length content
          then (case d_title article_data of
                  None \<Rightarrow> Inl st
                | Some title \<Rightarrow>
                    (let st1 = record_call cand SummarizeArticle st in
                     case summarize_article svc title content (summary_max_words svc) of
                       Inl e \<Rightarrow> Inl st1
                     | Inr summary \<Rightarrow>
                         (let st2 = record_call cand UpdateArticleSummary st1 in
                          Inr (st2\<lparr> db := update_article_summary (timestamp svc) (db st2)
                                            article_id summary,
                                    new_articles_count := new_articles_count st2 + 1 \<rparr>))))
          else Inr st)"

text \<open>
  The body of the \<open>try\<close>. The \<open>except Exception\<close> clause only logs and continues, so
  an exception ends the iteration in the state reached.
\<close>

definition try_article :: "services \<Rightarrow> candidate \<Rightarrow> collect_state \<Rightarrow> collect_state" where
  "try_article svc cand st =
     (case cand of (source, url, title) \<Rightarrow>
        (case relevance_score svc url title of
           Inl e \<Rightarrow> st
         | Inr (score, bd) \<Rightarrow>
             if score < 30 then st
             else
               (let st1 = record_call cand ExtractArticle st in
                case extract_article svc url source of
                  Inl e \<Rightarrow> st1
                | Inr extracted \<Rightarrow>
                    (let article_data = extracted\<lparr> d_source := Some source,
                                                   d_relevance_score := Some score \<rparr>;
                         st2 = record_call cand AddArticle st1
                     in case add_article (md5_hexdigest svc) (timestamp svc) (db st2) article_data of
                          Inl e \<Rightarrow> st2
                        | Inr (article_id, db') \<Rightarrow>
                            (case summarize_step svc cand article_data article_id
                                    (st2\<lparr> db := db' \<rparr>) of
                               Inl st3 \<Rightarrow> st3
                             | Inr st3 \<Rightarrow>
                                 st3\<lparr> processed_by_source :=
                                        dict_set (processed_by_source st3) source
                                          (get_default (dict_get (processed_by_source st3) source) 0
                                           + 1) \<rparr>)))))"

definition process_article ::
  "services \<Rightarrow> int \<Rightarrow> collect_state \<Rightarrow> candidate \<Rightarrow> collect_state" where
  "process_article svc limit_per_source st0 cand =
     (case cand of (source, url, title) \<Rightarrow>
        (let st = (if source \<in> set (dict_keys (processed_by_source st0)) then st0
                   else st0\<lparr> processed_by_source :=
                               dict_set (processed_by_source st0) source 0 \<rparr>)
         in if limit_per_source \<le> get_default (dict_get (processed_by_source st) source) 0
            then st
            else try_article svc cand st))"

definition collect_and_process_articles ::
  "services \<Rightarrow> database \<Rightarrow> candidate list \<Rightarrow> int \<Rightarrow> int \<times> collect_state" where
  "collect_and_process_articles svc db0 all_articles limit_per_source =
     (let st0 = \<lparr> db = db0, processed_by_source = [], new_articles_count = 0, calls = [] \<rparr> in
      if all_articles = [] then (0, st0)
      else
        (let st = foldl (process_article svc limit_per_source) st0 all_articles;
             db' = foldl (\<lambda>d (source, count). update_source_stats (today svc) d source count count)
                     (db st) (processed_by_source st)
         in (new_articles_count st, st\<lparr> db := db' \<rparr>)))"

section \<open>The digest formatter (telegram\_bot.py)\<close>

text \<open>
  The article dicts the formatter reads with \<open>get\<close>, and the fixed texts of the two
  templates as code points (Cyrillic text and pictographs).
\<close>

record digest_article =
  t_title :: "pystr option"
  t_summary :: "pystr option"
  t_url :: "pystr option"
  t_source :: "pystr option"
  t_relevance_score :: "int option"

text \<open>The robot sign, two asterisks and the title of the long digest, up to the date.\<close>

definition txt_long_head1 :: pystr where
  "txt_long_head1 =
     [129302, 32, 42, 42, 1044, 1072, 1081, 1076, 1078, 1077, 1089, 1090, 32, 1085, 1086, 1074,
      1086, 1089, 1090, 1077, 1081, 32, 1048, 1048, 32, 45, 32]"

text \<open>The second line of the long header.\<close>

definition txt_long_head2 :: pystr where
  "txt_long_head2 =
     [128640, 32, 95, 1041, 1091, 1076, 1091, 1097, 1077, 1077, 32, 1091, 1078, 1077, 32, 1079,
      1076, 1077, 1089, 1100, 58, 32, 1075, 1083, 1072, 1074, 1085, 1099, 1077, 32, 1089, 1086,
      1073, 1099, 1090, 1080, 1103, 32, 1074, 32, 1084, 1080, 1088, 1077, 32, 1080, 1089, 1082,
      1091, 1089, 1089, 1090, 1074, 1077, 1085, 1085, 1086, 1075, 1086, 32, 1080, 1085, 1090,
      1077, 1083, 1083, 1077, 1082, 1090, 1072, 95, 10]"

text \<open>The third line of the long header: before the number of articles.\<close>

definition txt_long_head3a :: pystr where
  "txt_long_head3a =
     [128202, 32, 1058, 1086, 1087, 32]"

text \<open>Between the number of articles and the number of sources.\<close>

definition txt_long_head3b :: pystr where
  "txt_long_head3b =
     [32, 1085, 1086, 1074, 1086, 1089, 1090, 1077, 1081, 32, 1080, 1079, 32]"

text \<open>After the number of sources.\<close>

definition txt_long_head3c :: pystr where
  "txt_long_head3c =
     [32, 1080, 1089, 1090, 1086, 1095, 1085, 1080, 1082, 1086, 1074, 10, 10]"

text \<open>The default title.\<close>

definition txt_no_title :: pystr where
  "txt_no_title =
     [1041, 1077, 1079, 32, 1079, 1072, 1075, 1086, 1083, 1086, 1074, 1082, 1072]"

text \<open>The default summary.\<close>

definition txt_no_summary :: pystr where
  "txt_no_summary =
     [1056, 1077, 1079, 1102, 1084, 1077, 32, 1085, 1077, 1076, 1086, 1089, 1090, 1091, 1087,
      1085, 1086]"

text \<open>The default source.\<close>

definition txt_no_source :: pystr where
  "txt_no_source =
     [1053, 1077, 1080, 1079, 1074, 1077, 1089, 1090, 1085, 1086]"

text \<open>Before the source.\<close>

definition txt_long_src_a :: pystr where
  "txt_long_src_a =
     [128240, 32, 95]"

text \<open>Between the source and the score.\<close>

definition txt_long_src_b :: pystr where
  "txt_long_src_b =
     [95, 32, 8226, 32, 1056, 1077, 1081, 1090, 1080, 1085, 1075, 58, 32]"

text \<open>Before the summary.\<close>

definition txt_long_sum :: pystr where
  "txt_long_sum =
     [128221, 32]"

text \<open>The link of the long format, up to the URL.\<close>

definition txt_long_link :: pystr where
  "txt_long_link =
     [128279, 32, 91, 1063, 1080, 1090, 1072, 1090, 1100, 32, 1087, 1086, 1083, 1085, 1086,
      1089, 1090, 1100, 1102, 93, 40]"

text \<open>The channel line of the footer.\<close>

definition txt_footer1 :: pystr where
  "txt_footer1 =
     [64, 76, 101, 116, 115, 84, 97, 108, 107, 65, 73, 10]"

text \<open>The hashtags of the footer.\<close>

definition txt_footer2 :: pystr where
  "txt_footer2 =
     [35, 65, 73, 32, 35, 1048, 1048, 32, 35, 79, 112, 101, 110, 65, 73, 32, 35, 71, 111, 111,
      103, 108, 101, 32, 35, 67, 104, 97, 116, 71, 80, 84, 32, 35, 84, 101, 99, 104, 78, 101,
      119, 115, 32, 35, 1048, 1089, 1082, 1091, 1089, 1089, 1090, 1074, 1077, 1085, 1085, 1099,
      1081, 1048, 1085, 1090, 1077, 1083, 1083, 1077, 1082, 1090]"

text \<open>The title of the short digest, up to the date.\<close>

definition txt_short_head1 :: pystr where
  "txt_short_head1 =
     [129302, 32, 42, 42, 1044, 1072, 1081, 1076, 1078, 1077, 1089, 1090, 32, 1048, 1048, 32,
      45, 32]"

text \<open>The second line of the short header.\<close>

definition txt_short_head2 :: pystr where
  "txt_short_head2 =
     [128200, 32, 95, 1057, 1072, 1084, 1099, 1077, 32, 1074, 1072, 1078, 1085, 1099, 1077, 32,
      1085, 1086, 1074, 1086, 1089, 1090, 1080, 32, 1080, 1089, 1082, 1091, 1089, 1089, 1090,
      1074, 1077, 1085, 1085, 1086, 1075, 1086, 32, 1080, 1085, 1090, 1077, 1083, 1083, 1077,
      1082, 1090, 1072, 32, 1079, 1072, 32, 1089, 1077, 1075, 1086, 1076, 1085, 1103, 95, 10,
      10]"

text \<open>Between the source and the summary in the short format.\<close>

definition txt_short_src_b :: pystr where
  "txt_short_src_b =
     [95, 32, 8226, 32]"

text \<open>The link of the short format, up to the URL.\<close>

definition txt_short_link :: pystr where
  "txt_short_link =
     [128279, 32, 91, 1063, 1080, 1090, 1072, 1090, 1100, 93, 40]"


text \<open>\<open>enumerate(xs, 1)\<close>, \<open>s.rfind(c)\<close> and the default of the date.\<close>

definition enumerate1 :: "'a list \<Rightarrow> (nat \<times> 'a) list" where
  "enumerate1 xs = zip [1..<Suc (length xs)] xs"

definition rfind :: "'a list \<Rightarrow> 'a \<Rightarrow> int" where
  "rfind s c =
     (case filter (\<lambda>i. s ! i = c) (rev [0..<length s]) of
        [] \<Rightarrow> - 1
      | i # _ \<Rightarrow> int i)"

definition date_or_today :: "pystr \<Rightarrow> pystr option \<Rightarrow> pystr" where
  "date_or_today today_str date =
     (case date of None \<Rightarrow> today_str | Some d \<Rightarrow> if d = [] then today_str else d)"

text \<open>One article of the long format, with its rank.\<close>

definition long_entry :: "nat \<times> digest_article \<Rightarrow> pystr" where
  "long_entry p =
     (case p of (i, article) \<Rightarrow>
        (let title0 = get_default (t_title article) txt_no_title;
             summary0 = get_default (t_summary article) txt_no_summary;
             url = get_default (t_url article) [];
             source = get_default (t_source article) txt_no_source;
             score = get_default (t_relevance_score article) 0;
             title = (if 60 < length title0 then take 57 title0 @ asc ''...'' else title0);
             summary = (if 150 < length summary0 then take 147 summary0 @ asc ''...''
                        else summary0)
         in asc ''**'' @ str_nat i @ asc ''. '' @ title @ asc ''**'' @ [10]
            @ txt_long_src_a @ source @ txt_long_src_b @ str_int score @ [10]
            @ txt_long_sum @ summary @ [10]
            @ txt_long_link @ url @ asc '')'' @ [10, 10]))"

text \<open>
  The long message: the header, with the number of all articles and of their distinct
  sources, the entries that the loop over \<open>enumerate(articles[:10], 1)\<close> renders, and
  the footer.
\<close>

definition long_header :: "pystr \<Rightarrow> digest_article list \<Rightarrow> pystr option \<Rightarrow> pystr" where
  "long_header today_str articles date =
     txt_long_head1 @ date_or_today today_str date @ asc ''**'' @ [10]
     @ txt_long_head2
     @ txt_long_head3a @ str_nat (length articles) @ txt_long_head3b
     @ str_nat (length (remdups (map (\<lambda>a. get_default (t_source a) []) articles)))
     @ txt_long_head3c"

definition long_entries :: "digest_article list \<Rightarrow> pystr list" where
  "long_entries articles = map long_entry (enumerate1 (take 10 articles))"

definition digest_footer :: pystr where
  "digest_footer = txt_footer1 @ txt_footer2"

definition format_digest_message :: "pystr \<Rightarrow> digest_article list \<Rightarrow> pystr option \<Rightarrow> pystr" where
  "format_digest_message today_str articles date =
     long_header today_str articles date @ concat (long_entries articles) @ digest_footer"

text \<open>One article of the short format: the summary is cut at a sentence end if one
  lies beyond position 80 of its first 120 characters.\<close>

definition short_entry :: "nat \<times> digest_article \<Rightarrow> pystr" where
  "short_entry p =
     (case p of (i, article) \<Rightarrow>
        (let title0 = get_default (t_title article) txt_no_title;
             summary = get_default (t_summary article) txt_no_summary;
             url = get_default (t_url article) [];
             source = get_default (t_source article) txt_no_source;
             title = (if 45 < length title0 then take 42 title0 @ asc ''...'' else title0);
             enhanced_summary =
               (if 120 < length summary
                then (let truncated = take 120 summary;
                          last_period = rfind truncated 46
                      in if 80 < last_period then take (nat (last_period + 1)) summary
                         else truncated @ asc ''...'')
                else summary)
         in asc ''**'' @ str_nat i @ asc ''. '' @ title @ asc ''**'' @ [10]
            @ txt_long_src_a @ source @ txt_short_src_b @ enhanced_summary @ [10]
            @ txt_short_link @ url @ asc '')'' @ [10, 10]))"

text \<open>The short message: the loop runs over \<open>enumerate(articles[:8], 1)\<close>.\<close>

definition short_header :: "pystr \<Rightarrow> pystr option \<Rightarrow> pystr" where
  "short_header today_str date =
     txt_short_head1 @ date_or_today today_str date @ asc ''**'' @ [10] @ txt_short_head2"

definition short_entries :: "digest_article list \<Rightarrow> pystr list" where
  "short_entries articles = map short_entry (enumerate1 (take 8 articles))"

definition format_short_digest :: "pystr \<Rightarrow> digest_article list \<Rightarrow> pystr option \<Rightarrow> pystr" where
  "format_short_digest today_str articles date =
     short_header today_str date @ concat (short_entries articles) @ digest_footer"

text \<open>The text \<open>send_digest\<close> posts: the chosen format, or the short one when the
  message is longer than 3800 characters.\<close>

definition send_digest_message ::
  "pystr \<Rightarrow> digest_article list \<Rightarrow> bool \<Rightarrow> pystr option \<Rightarrow> pystr" where
  "send_digest_message today_str articles use_short_format date =
     (let message = (if use_short_format then format_short_digest today_str articles date
                     else format_digest_message today_str articles date)
      in if 3800 < length message then format_short_digest today_str articles date
         else message)"

section \<open>Collaborators to run the model with\<close>

text \<open>
  An extractor that returns a page of 101 characters for every URL, and a summarizer
  with a fixed answer.
\<close>

definition sample_extract :: "pystr \<Rightarrow> pystr \<Rightarrow> py_error + article_data" where
  "sample_extract url source =
     Inr \<lparr> d_url = Some url, d_title = Some (asc ''Title''),
           d_content = Some (replicate 101 120), d_summary = None, d_source = None,
           d_relevance_score = None, d_word_count = Some 1, d_excerpt = Some [],
           d_domain = None \<rparr>"

definition sample_services :: services where
  "sample_services =
     \<lparr> relevance_score = calculate_relevance_score (cpython 2025),
       extract_article = sample_extract,
       summarize_article = (\<lambda>title content max_words. Inr (asc ''Summary'')),
       md5_hexdigest = url_md5,
       summary_max_words = 100,
       timestamp = 0,
       today = asc ''2025-06-01'' \<rparr>"

text \<open>An article as the example of database.py adds it, and a store that holds it.\<close>

definition sample_article :: "pystr \<Rightarrow> article_data" where
  "sample_article url =
     \<lparr> d_url = Some url, d_title = Some (asc ''Test Article''),
       d_content = Some (asc ''This is test content.''), d_summary = None,
       d_source = Some (asc ''Test Source''), d_relevance_score = Some 75,
       d_word_count = None, d_excerpt = None, d_domain = None \<rparr>"

definition sample_store :: database where
  "sample_store =
     \<lparr> articles_tbl =
         [inserted_row 1 (asc ''https://example.com/test-article'')
            (asc ''6b4c16dd598c2e53c58430c6adcfe2b4'') 0
            (sample_article (asc ''https://example.com/test-article''))],
       articles_seq = 1, source_stats = [] \<rparr>"

section \<open>Notions used in the statements\<close>

text \<open>\<open>sum(breakdown.values())\<close>.\<close>

definition sum_values :: "breakdown \<Rightarrow> int" where
  "sum_values bd = sum_list (dict_values bd)"

text \<open>The labels a keyword loop can write, and the labels of all loops before the source loop.\<close>

definition labels :: "string \<Rightarrow> (string \<times> int) list \<Rightarrow> pystr set" where
  "labels label tbl = (\<lambda>kw. asc (label @ kw)) ` fst ` set tbl"

definition keyword_labels :: "pystr set" where
  "keyword_labels =
     labels ''High-value: '' high_value_keywords \<union> labels ''Medium-value: '' medium_value_keywords
     \<union> labels ''Company: '' ai_companies \<union> labels ''Tech: '' tech_terms"

definition scored_keys :: "pystr set" where
  "scored_keys = keyword_labels \<union> {asc ''Current year'', asc ''Recent year''}"

text \<open>
  The first pair of \<open>source_bonus\<close>, in table order, whose domain occurs in the given
  network location (none or one pair), the breakdown entry of a pair, and the test
  for a label that starts with \<open>Source: \<close>.
\<close>

definition first_source :: "pystr \<Rightarrow> (string \<times> int) list" where
  "first_source domain =
     (case find (\<lambda>(source, bonus). py_in (asc source) domain) source_bonus of
        None \<Rightarrow> [] | Some p \<Rightarrow> [p])"

definition source_entry :: "string \<times> int \<Rightarrow> pystr \<times> int" where
  "source_entry p = (asc (''Source: '' @ fst p), snd p)"

definition is_source_label :: "pystr \<times> int \<Rightarrow> bool" where
  "is_source_label entry = startswith (fst entry) (asc ''Source: '')"

text \<open>No keyword of the four tables occurs in the text, and neither year in the URL.\<close>

definition no_keyword :: "pystr \<Rightarrow> bool" where
  "no_keyword content =
     list_all (\<lambda>(kw, points). \<not> py_in (asc kw) content)
       (high_value_keywords @ medium_value_keywords @ ai_companies @ tech_terms)"

definition no_year :: "int \<Rightarrow> pystr \<Rightarrow> bool" where
  "no_year year url = (\<not> py_in (str_int year) url \<and> \<not> py_in (str_int (year - 1)) url)"

text \<open>
  The rows of a store that was filled by \<open>add_article\<close>: no two rows share a
  \<open>url_hash\<close> or an id, every hash is the digest of the row's URL, and no id is above
  the counter.
\<close>

definition store_invariant :: "(pystr \<Rightarrow> py_error + pystr) \<Rightarrow> database \<Rightarrow> bool" where
  "store_invariant md5 d =
     (distinct (map a_url_hash (articles_tbl d))
      \<and> distinct (map a_id (articles_tbl d))
      \<and> list_all (\<lambda>r. md5 (a_url r) = Inr (a_url_hash r) \<and> a_id r \<le> articles_seq d)
           (articles_tbl d))"

text \<open>A candidate whose score the scorer returns and that is at least 30.\<close>

definition admitted :: "services \<Rightarrow> candidate \<Rightarrow> bool" where
  "admitted svc cand =
     (case cand of (source, url, title) \<Rightarrow>
        (case relevance_score svc url title of
           Inl e \<Rightarrow> False
         | Inr (score, bd) \<Rightarrow> 30 \<le> score))"

section \<open>Properties of the scorer\<close>

lemma asc_eq_iff: "asc a = asc b \<longleftrightarrow> a = b"
  unfolding asc_def by (metis inj_of_char inj_map_eq_map)

lemma asc_append: "asc (a @ b) = asc a @ asc b"
  by (simp add: asc_def)

lemma dict_set_fresh: "k \<notin> set (dict_keys d) \<Longrightarrow> dict_set d k v = d @ [(k, v)]"
  by (induction d) (auto simp: dict_keys_def)

lemma dict_keys_set: "set (dict_keys (dict_set d k v)) = insert k (set (dict_keys d))"
  by (induction d) (force simp: dict_keys_def split: if_splits)+

lemma sum_values_fresh:
  "k \<notin> set (dict_keys d) \<Longrightarrow> sum_values (dict_set d k v) = sum_values d + v"
  by (simp add: dict_set_fresh sum_values_def dict_values_def)

lemma check_keywords_keys:
  "set (dict_keys (snd (check_keywords label tbl c st))) \<subseteq> set (dict_keys (snd st)) \<union> labels label tbl"
proof (induction tbl arbitrary: st)
  case Nil
  then show ?case by simp
next
  case (Cons a tbl)
  obtain kw p where a: "a = (kw, p)" by (cases a)
  obtain s bd where st: "st = (s, bd)" by (cases st)
  show ?case
    using Cons.IH [of "(s + p, dict_set bd (asc (label @ kw)) p)"] Cons.IH [of "(s, bd)"]
    by (auto simp: a st dict_keys_set labels_def)
qed

lemma check_keywords_sum:
  assumes "distinct (map fst tbl)"
    and "labels label tbl \<inter> set (dict_keys (snd st)) = {}"
  shows "fst (check_keywords label tbl c st) - sum_values (snd (check_keywords label tbl c st))
         = fst st - sum_values (snd st)"
  using assms
proof (induction tbl arbitrary: st)
  case Nil
  then show ?case by simp
next
  case (Cons a tbl)
  obtain kw p where a: "a = (kw, p)" by (cases a)
  obtain s bd where st: "st = (s, bd)" by (cases st)
  have fresh: "asc (label @ kw) \<notin> set (dict_keys bd)"
    using Cons.prems(2) by (auto simp: a st labels_def)
  have d: "distinct (map fst tbl)" and kw: "kw \<notin> fst ` set tbl"
    using Cons.prems(1) by (auto simp: a)
  have notin: "asc (label @ kw) \<notin> labels label tbl"
    using kw by (force simp: labels_def asc_eq_iff)
  have rest: "labels label tbl \<inter> set (dict_keys bd) = {}"
    using Cons.prems(2) by (auto simp: a st labels_def)
  show ?case
  proof (cases "py_in (asc kw) c")
    case True
    have "labels label tbl \<inter> set (dict_keys (snd (s + p, dict_set bd (asc (label @ kw)) p))) = {}"
      using rest notin by (auto simp: dict_keys_set)
    from Cons.IH [OF d this] True show ?thesis
      by (simp add: a st sum_values_fresh [OF fresh])
  next
    case False
    from Cons.IH [of "(s, bd)"] d rest False show ?thesis
      by (simp add: a st)
  qed
qed


lemma labels_disjoint:
  "labels ''Medium-value: '' t2 \<inter> labels ''High-value: '' t1 = {}"
  "labels ''Company: '' t3 \<inter> (labels ''High-value: '' t1 \<union> labels ''Medium-value: '' t2) = {}"
  "labels ''Tech: '' t4 \<inter> (labels ''High-value: '' t1 \<union> labels ''Medium-value: '' t2
      \<union> labels ''Company: '' t3) = {}"
  by (auto simp: labels_def asc_eq_iff)

lemma tables_distinct:
  "distinct (map fst high_value_keywords)" "distinct (map fst medium_value_keywords)"
  "distinct (map fst ai_companies)" "distinct (map fst tech_terms)"
  by (simp_all add: high_value_keywords_def medium_value_keywords_def ai_companies_def
      tech_terms_def)

lemma keyword_phase_inv:
  "fst (keyword_phase c) = sum_values (snd (keyword_phase c))
   \<and> set (dict_keys (snd (keyword_phase c))) \<subseteq> keyword_labels"
proof -
  define st1 where "st1 = check_keywords ''High-value: '' high_value_keywords c (0, [])"
  define st2 where "st2 = check_keywords ''Medium-value: '' medium_value_keywords c st1"
  define st3 where "st3 = check_keywords ''Company: '' ai_companies c st2"
  define st4 where "st4 = check_keywords ''Tech: '' tech_terms c st3"
  have k1: "set (dict_keys (snd st1)) \<subseteq> labels ''High-value: '' high_value_keywords"
    using check_keywords_keys [of "''High-value: ''" high_value_keywords c "(0, [])"]
    by (simp add: st1_def dict_keys_def)
  have k2: "set (dict_keys (snd st2)) \<subseteq> labels ''High-value: '' high_value_keywords
      \<union> labels ''Medium-value: '' medium_value_keywords"
    using check_keywords_keys [of "''Medium-value: ''" medium_value_keywords c st1] k1
    unfolding st2_def by blast
  have k3: "set (dict_keys (snd st3)) \<subseteq> labels ''High-value: '' high_value_keywords
      \<union> labels ''Medium-value: '' medium_value_keywords \<union> labels ''Company: '' ai_companies"
    using check_keywords_keys [of "''Company: ''" ai_companies c st2] k2
    unfolding st3_def by blast
  have k4: "set (dict_keys (snd st4)) \<subseteq> keyword_labels"
    using check_keywords_keys [of "''Tech: ''" tech_terms c st3] k3
    unfolding st4_def keyword_labels_def by blast
  have s1: "fst st1 - sum_values (snd st1) = 0"
    using check_keywords_sum [OF tables_distinct(1), of "''High-value: ''" "(0, [])" c]
    by (simp add: st1_def dict_keys_def sum_values_def dict_values_def)
  have d1: "labels ''Medium-value: '' medium_value_keywords \<inter> set (dict_keys (snd st1)) = {}"
    using k1 labels_disjoint(1) [of medium_value_keywords high_value_keywords] by blast
  have d2: "labels ''Company: '' ai_companies \<inter> set (dict_keys (snd st2)) = {}"
    using k2 labels_disjoint(2) [of ai_companies high_value_keywords medium_value_keywords]
    by blast
  have d3: "labels ''Tech: '' tech_terms \<inter> set (dict_keys (snd st3)) = {}"
    using k3 labels_disjoint(3)
      [of tech_terms high_value_keywords medium_value_keywords ai_companies]
    by blast
  have s2: "fst st2 - sum_values (snd st2) = 0"
    using check_keywords_sum [OF tables_distinct(2) d1, of c] s1 by (simp add: st2_def)
  have s3: "fst st3 - sum_values (snd st3) = 0"
    using check_keywords_sum [OF tables_distinct(3) d2, of c] s2 by (simp add: st3_def)
  have s4: "fst st4 - sum_values (snd st4) = 0"
    using check_keywords_sum [OF tables_distinct(4) d3, of c] s3 by (simp add: st4_def)
  have "keyword_phase c = st4"
    by (simp add: keyword_phase_def st1_def st2_def st3_def st4_def)
  with k4 s4 show ?thesis by simp
qed


lemma year_labels_fresh:
  "asc ''Current year'' \<notin> keyword_labels" "asc ''Recent year'' \<notin> keyword_labels"
  by (auto simp: keyword_labels_def labels_def asc_eq_iff)

lemma recency_inv:
  assumes "fst st = sum_values (snd st)" "set (dict_keys (snd st)) \<subseteq> keyword_labels"
  shows "fst (recency y u st) = sum_values (snd (recency y u st))
         \<and> set (dict_keys (snd (recency y u st))) \<subseteq> scored_keys"
proof -
  obtain s bd where st: "st = (s, bd)" by (cases st)
  have f1: "asc ''Current year'' \<notin> set (dict_keys bd)"
    and f2: "asc ''Recent year'' \<notin> set (dict_keys bd)"
    using assms(2) year_labels_fresh by (auto simp: st)
  show ?thesis
    using assms
    by (auto simp: st recency_def sum_values_fresh [OF f1] sum_values_fresh [OF f2]
        dict_keys_set scored_keys_def)
qed

lemma source_quality_find:
  "source_quality tbl domain (s, bd) =
     (case find (\<lambda>(source, bonus). py_in (asc source) domain) tbl of
        None \<Rightarrow> (s, bd)
      | Some (source, bonus) \<Rightarrow> (s + bonus, dict_set bd (asc (''Source: '' @ source)) bonus))"
  by (induction tbl) auto

lemma source_label_fresh: "asc (''Source: '' @ src) \<notin> scored_keys"
  by (auto simp: scored_keys_def keyword_labels_def labels_def asc_eq_iff)

lemma base_label_fresh:
  "asc ''Base AI relevance'' \<notin> scored_keys"
  "asc ''Base AI relevance'' \<noteq> asc (''Source: '' @ src)"
  by (auto simp: scored_keys_def keyword_labels_def labels_def asc_eq_iff)

lemma scored_keys_not_source: "k \<in> scored_keys \<Longrightarrow> \<not> startswith k (asc ''Source: '')"
  by (auto simp: scored_keys_def keyword_labels_def labels_def asc_def)

lemma startswith_append: "startswith (p @ s) p"
  by (induction p) auto

lemma calculate_relevance_score_explicit:
  fixes env :: environment and url title netloc :: pystr
  assumes "urlparse_netloc env url = Inr netloc"
  defines "st \<equiv> recency (current_year env) url (keyword_phase (str_lower env (url @ asc '' '' @ title)))"
  defines "src \<equiv> first_source (str_lower env netloc)"
  shows "calculate_relevance_score env url title =
           Inr (fst st + sum_list (map snd src) + 5,
                snd st @ map source_entry src @ [(asc ''Base AI relevance'', 5)])"
    and "fst st = sum_values (snd st)"
    and "set (dict_keys (snd st)) \<subseteq> scored_keys"
proof -
  have inv: "fst st = sum_values (snd st) \<and> set (dict_keys (snd st)) \<subseteq> scored_keys"
    unfolding st_def using keyword_phase_inv recency_inv by blast
  then show "fst st = sum_values (snd st)" "set (dict_keys (snd st)) \<subseteq> scored_keys"
    by simp_all
  obtain s bd where sb: "st = (s, bd)" by (cases st)
  have keys: "set (dict_keys bd) \<subseteq> scored_keys" using inv by (simp add: sb)
  have sq: "source_quality source_bonus (str_lower env netloc) (s, bd)
            = (s + sum_list (map snd src), bd @ map source_entry src)"
  proof (cases "find (\<lambda>(source, bonus). py_in (asc source) (str_lower env netloc)) source_bonus")
    case None
    then show ?thesis by (simp add: source_quality_find src_def first_source_def)
  next
    case (Some p)
    obtain source bonus where p: "p = (source, bonus)" by (cases p)
    have "asc (''Source: '' @ source) \<notin> set (dict_keys bd)"
      using keys source_label_fresh by blast
    then show ?thesis
      using Some
      by (simp add: source_quality_find src_def first_source_def p dict_set_fresh source_entry_def)
  qed
  have "asc ''Base AI relevance'' \<notin> set (dict_keys (bd @ map source_entry src))"
    using keys base_label_fresh
    by (auto simp: dict_keys_def src_def first_source_def source_entry_def split: option.splits)
  then have "base_relevance (s + sum_list (map snd src), bd @ map source_entry src)
       = (s + sum_list (map snd src) + 5, bd @ map source_entry src @ [(asc ''Base AI relevance'', 5)])"
    by (simp add: base_relevance_def dict_set_fresh)
  then show "calculate_relevance_score env url title =
           Inr (fst st + sum_list (map snd src) + 5,
                snd st @ map source_entry src @ [(asc ''Base AI relevance'', 5)])"
    using assms(1) sq sb
    by (simp add: calculate_relevance_score_def Let_def st_def [symmetric])
qed


lemma check_keywords_mono:
  "list_all (\<lambda>(kw, p). 0 \<le> p) tbl \<Longrightarrow> fst st \<le> fst (check_keywords label tbl c st)"
proof (induction tbl arbitrary: st)
  case Nil
  then show ?case by simp
next
  case (Cons a tbl)
  obtain kw p where a: "a = (kw, p)" by (cases a)
  obtain s bd where st: "st = (s, bd)" by (cases st)
  from Cons.prems have p: "0 \<le> p" and rest: "list_all (\<lambda>(kw, p). 0 \<le> p) tbl"
    by (simp_all add: a)
  show ?case
    using Cons.IH [OF rest, of "(s + p, dict_set bd (asc (label @ kw)) p)"]
      Cons.IH [OF rest, of "(s, bd)"] p
    by (auto simp: a st)
qed

lemma tables_nonneg:
  "list_all (\<lambda>(kw, p). 0 \<le> p) high_value_keywords"
  "list_all (\<lambda>(kw, p). 0 \<le> p) medium_value_keywords"
  "list_all (\<lambda>(kw, p). 0 \<le> p) ai_companies"
  "list_all (\<lambda>(kw, p). 0 \<le> p) tech_terms"
  "list_all (\<lambda>(kw, p). 0 \<le> p) source_bonus"
  by (simp_all add: high_value_keywords_def medium_value_keywords_def ai_companies_def
      tech_terms_def source_bonus_def)

lemma keyword_phase_nonneg: "0 \<le> fst (keyword_phase c)"
proof -
  have "(0::int) \<le> fst (check_keywords ''High-value: '' high_value_keywords c (0, []))"
    using check_keywords_mono [OF tables_nonneg(1), of "(0, [])"] by simp
  also have "\<dots> \<le> fst (check_keywords ''Medium-value: '' medium_value_keywords c
      (check_keywords ''High-value: '' high_value_keywords c (0, [])))"
    by (rule check_keywords_mono [OF tables_nonneg(2)])
  also have "\<dots> \<le> fst (check_keywords ''Company: '' ai_companies c
      (check_keywords ''Medium-value: '' medium_value_keywords c
      (check_keywords ''High-value: '' high_value_keywords c (0, []))))"
    by (rule check_keywords_mono [OF tables_nonneg(3)])
  also have "\<dots> \<le> fst (keyword_phase c)"
    unfolding keyword_phase_def by (rule check_keywords_mono [OF tables_nonneg(4)])
  finally show ?thesis .
qed

lemma recency_mono: "fst st \<le> fst (recency y u st)"
  by (cases st) (simp add: recency_def)

lemma first_source_nonneg: "0 \<le> sum_list (map snd (first_source domain))"
proof (cases "find (\<lambda>(source, bonus). py_in (asc source) domain) source_bonus")
  case None
  then show ?thesis by (simp add: first_source_def)
next
  case (Some p)
  then have "p \<in> set source_bonus"
    by (auto simp: find_Some_iff in_set_conv_nth)
  with tables_nonneg(5) have "0 \<le> snd p"
    by (auto simp: list_all_iff)
  with Some show ?thesis by (simp add: first_source_def)
qed

lemma length_first_source: "length (first_source domain) \<le> 1"
  by (simp add: first_source_def split: option.splits)

lemma filter_scored_keys:
  "set (dict_keys bd) \<subseteq> scored_keys \<Longrightarrow> filter is_source_label bd = []"
  using scored_keys_not_source
  by (auto simp: filter_empty_conv is_source_label_def dict_keys_def)

lemma is_source_label_entry: "is_source_label (source_entry p)"
  unfolding is_source_label_def source_entry_def fst_conv asc_append
  by (rule startswith_append)

lemma filter_source_entries: "filter is_source_label (map source_entry src) = map source_entry src"
  by (induction src) (simp_all add: is_source_label_entry)

lemma base_not_source: "\<not> is_source_label (asc ''Base AI relevance'', v)"
  by (simp add: is_source_label_def asc_def)

lemma check_keywords_no_match:
  "list_all (\<lambda>(kw, p). \<not> py_in (asc kw) c) tbl \<Longrightarrow> check_keywords label tbl c st = st"
proof (induction tbl arbitrary: st)
  case Nil
  then show ?case by simp
next
  case (Cons a tbl)
  then show ?case by (cases a; cases st) simp
qed

lemma keyword_phase_no_match: "no_keyword c \<Longrightarrow> keyword_phase c = (0, [])"
  by (simp add: no_keyword_def keyword_phase_def check_keywords_no_match)

lemma calculate_relevance_score_Inl:
  "urlparse_netloc env url = Inl e \<Longrightarrow> calculate_relevance_score env url title = Inl e"
  by (simp add: calculate_relevance_score_def Let_def)

lemma calculate_relevance_score_Inr:
  assumes "calculate_relevance_score env url title = Inr r"
  obtains netloc where "urlparse_netloc env url = Inr netloc"
  using assms by (cases "urlparse_netloc env url") (simp_all add: calculate_relevance_score_Inl)

lemma base_not_source_entry: "asc ''Base AI relevance'' \<notin> fst ` source_entry ` set src"
  by (auto simp: source_entry_def asc_eq_iff)

section \<open>The claims about the scorer\<close>

text \<open>
  C1. Whenever \<open>calculate_relevance_score\<close> returns a pair \<open>(score, breakdown)\<close>, the
  score is the sum of the values of the breakdown: every label is written once, so no
  assignment to the dict overwrites a contribution that the score has counted.
\<close>

theorem score_equals_breakdown_sum:
  assumes "calculate_relevance_score env article_url title = Inr (score, bd)"
  shows "score = sum_values bd"
proof -
  from assms obtain netloc where n: "urlparse_netloc env article_url = Inr netloc"
    by (rule calculate_relevance_score_Inr)
  note ex = calculate_relevance_score_explicit [OF n, of title]
  from ex(1) assms ex(2) show ?thesis
    by (simp add: sum_values_def dict_values_def source_entry_def comp_def)
qed

theorem score_equals_breakdown_sum_witness:
  "calculate_relevance_score (cpython 2025)
      (asc ''https://openai.com/blog/chatgpt-breakthrough-2025'') []
   = Inr (83, [(asc ''High-value: openai'', 20), (asc ''High-value: chatgpt'', 20),
               (asc ''High-value: gpt'', 15), (asc ''High-value: breakthrough'', 15),
               (asc ''Current year'', 8), (asc ''Base AI relevance'', 5)])
   \<and> (83::int) = sum_values
        [(asc ''High-value: openai'', 20), (asc ''High-value: chatgpt'', 20),
         (asc ''High-value: gpt'', 15), (asc ''High-value: breakthrough'', 15),
         (asc ''Current year'', 8), (asc ''Base AI relevance'', 5)]"
proof -
  have run: "calculate_relevance_score (cpython 2025)
      (asc ''https://openai.com/blog/chatgpt-breakthrough-2025'') []
   = Inr (83, [(asc ''High-value: openai'', 20), (asc ''High-value: chatgpt'', 20),
               (asc ''High-value: gpt'', 15), (asc ''High-value: breakthrough'', 15),
               (asc ''Current year'', 8), (asc ''Base AI relevance'', 5)])"
    by code_simp
  show ?thesis
    by (rule conjI [OF run score_equals_breakdown_sum [OF run]])
qed

text \<open>
  C4, as stated, fails: the scorer calls \<open>urlparse\<close> outside any \<open>try\<close>, and for the URL
  \<open>http://[\<close> (a netloc with an opening bracket and no closing one) \<open>urlparse\<close> raises
  \<open>ValueError\<close>, which leaves the scorer.
\<close>

theorem scorer_raises_on_unbalanced_bracket:
  "calculate_relevance_score (cpython 2025) (asc ''http://['') [] = Inl ValueError"
  by code_simp

text \<open>
  C4, amended. The scorer raises exactly the exception that \<open>urlparse\<close> raises on the
  URL, and returns a pair whenever \<open>urlparse\<close> returns; a URL that \<open>urlparse\<close> accepts
  and that matches no keyword, no year and no source domain gets the base score alone.
\<close>

theorem scorer_result_follows_urlparse:
  "(\<forall>e. urlparse_netloc env article_url = Inl e
        \<longrightarrow> calculate_relevance_score env article_url title = Inl e)
   \<and> (\<forall>netloc. urlparse_netloc env article_url = Inr netloc
        \<longrightarrow> (\<exists>score bd. calculate_relevance_score env article_url title = Inr (score, bd)))
   \<and> (\<forall>netloc. urlparse_netloc env article_url = Inr netloc
          \<and> no_keyword (str_lower env (article_url @ asc '' '' @ title))
          \<and> no_year (current_year env) article_url
          \<and> first_source (str_lower env netloc) = []
        \<longrightarrow> calculate_relevance_score env article_url title
              = Inr (5, [(asc ''Base AI relevance'', 5)]))"
proof (intro conjI allI impI)
  fix e assume "urlparse_netloc env article_url = Inl e"
  then show "calculate_relevance_score env article_url title = Inl e"
    by (rule calculate_relevance_score_Inl)
next
  fix netloc assume "urlparse_netloc env article_url = Inr netloc"
  from calculate_relevance_score_explicit(1) [OF this]
  show "\<exists>score bd. calculate_relevance_score env article_url title = Inr (score, bd)"
    by blast
next
  fix netloc
  assume a: "urlparse_netloc env article_url = Inr netloc
          \<and> no_keyword (str_lower env (article_url @ asc '' '' @ title))
          \<and> no_year (current_year env) article_url
          \<and> first_source (str_lower env netloc) = []"
  then have "recency (current_year env) article_url
      (keyword_phase (str_lower env (article_url @ asc '' '' @ title))) = (0, [])"
    by (simp add: keyword_phase_no_match recency_def no_year_def)
  with a calculate_relevance_score_explicit(1) [of env article_url netloc title]
  show "calculate_relevance_score env article_url title = Inr (5, [(asc ''Base AI relevance'', 5)])"
    by simp
qed

theorem scorer_result_follows_urlparse_witness:
  "urlparse_netloc (cpython 2025) (asc ''http://['') = Inl ValueError
   \<and> calculate_relevance_score (cpython 2025) (asc ''http://['') [] = Inl ValueError
   \<and> urlparse_netloc (cpython 2025) (asc ''http://example.org/x'') = Inr (asc ''example.org'')
   \<and> no_keyword (str_lower (cpython 2025) (asc ''http://example.org/x'' @ asc '' '' @ []))
   \<and> no_year (current_year (cpython 2025)) (asc ''http://example.org/x'')
   \<and> first_source (str_lower (cpython 2025) (asc ''example.org'')) = []
   \<and> calculate_relevance_score (cpython 2025) (asc ''http://example.org/x'') []
       = Inr (5, [(asc ''Base AI relevance'', 5)])"
proof -
  have u: "urlparse_netloc (cpython 2025) (asc ''http://['') = Inl ValueError"
    by code_simp
  have r: "calculate_relevance_score (cpython 2025) (asc ''http://['') [] = Inl ValueError"
    using scorer_result_follows_urlparse [of "cpython 2025" "asc ''http://[''" "[]"] u
    by blast
  have n: "urlparse_netloc (cpython 2025) (asc ''http://example.org/x'') = Inr (asc ''example.org'')"
    by code_simp
  have k: "no_keyword (str_lower (cpython 2025) (asc ''http://example.org/x'' @ asc '' '' @ []))"
    by code_simp
  have y: "no_year (current_year (cpython 2025)) (asc ''http://example.org/x'')"
    by code_simp
  have f: "first_source (str_lower (cpython 2025) (asc ''example.org'')) = []"
    by code_simp
  have b: "calculate_relevance_score (cpython 2025) (asc ''http://example.org/x'') []
       = Inr (5, [(asc ''Base AI relevance'', 5)])"
    using scorer_result_follows_urlparse [of "cpython 2025" "asc ''http://example.org/x''" "[]"]
      n k y f
    by blast
  from u r n k y f b show ?thesis by (intro conjI)
qed

text \<open>
  C7. A returned breakdown has at most one entry whose label starts with \<open>Source: \<close>:
  the entries with such a label are exactly the entry of the first pair of the source
  table, in table order, whose domain occurs in the lower-cased netloc (no entry when no
  domain occurs), whatever other domains would match further down the table.
\<close>

theorem single_source_entry_first_match:
  assumes "calculate_relevance_score env article_url title = Inr (score, bd)"
  shows "length (filter is_source_label bd) \<le> 1
         \<and> (\<exists>netloc. urlparse_netloc env article_url = Inr netloc
              \<and> filter is_source_label bd = map source_entry (first_source (str_lower env netloc)))"
proof -
  from assms obtain netloc where n: "urlparse_netloc env article_url = Inr netloc"
    by (rule calculate_relevance_score_Inr)
  note ex = calculate_relevance_score_explicit [OF n, of title]
  have "filter is_source_label bd = map source_entry (first_source (str_lower env netloc))"
    using ex(1) assms filter_scored_keys [OF ex(3)]
    by (simp add: filter_source_entries base_not_source)
  with n length_first_source [of "str_lower env netloc"] show ?thesis by simp
qed

theorem single_source_entry_first_match_witness:
  "calculate_relevance_score (cpython 2025) (asc ''https://wired.com.techcrunch.com/a'') []
     = Inr (13, [(asc ''Source: techcrunch.com'', 8), (asc ''Base AI relevance'', 5)])
   \<and> (length (filter is_source_label
          [(asc ''Source: techcrunch.com'', 8), (asc ''Base AI relevance'', 5)]) \<le> 1
      \<and> (\<exists>netloc. urlparse_netloc (cpython 2025) (asc ''https://wired.com.techcrunch.com/a'')
                     = Inr netloc
            \<and> filter is_source_label
                 [(asc ''Source: techcrunch.com'', 8), (asc ''Base AI relevance'', 5)]
               = map source_entry (first_source (str_lower (cpython 2025) netloc))))"
proof -
  have run: "calculate_relevance_score (cpython 2025)
      (asc ''https://wired.com.techcrunch.com/a'') []
     = Inr (13, [(asc ''Source: techcrunch.com'', 8), (asc ''Base AI relevance'', 5)])"
    by code_simp
  show ?thesis
    by (rule conjI [OF run single_source_entry_first_match [OF run]])
qed

text \<open>
  C8. A returned score is at least 5, and the breakdown holds the entry
  \<open>Base AI relevance\<close> with the value 5: the base is added after all other rules, and
  every table holds positive points only.
\<close>

theorem base_floor:
  assumes "calculate_relevance_score env article_url title = Inr (score, bd)"
  shows "5 \<le> score \<and> dict_get bd (asc ''Base AI relevance'') = Some 5"
proof -
  from assms obtain netloc where n: "urlparse_netloc env article_url = Inr netloc"
    by (rule calculate_relevance_score_Inr)
  note ex = calculate_relevance_score_explicit [OF n, of title]
  define st where "st = recency (current_year env) article_url
      (keyword_phase (str_lower env (article_url @ asc '' '' @ title)))"
  define src where "src = first_source (str_lower env netloc)"
  have score: "score = fst st + sum_list (map snd src) + 5"
    and bd: "bd = snd st @ map source_entry src @ [(asc ''Base AI relevance'', 5)]"
    using ex(1) assms by (simp_all add: st_def src_def)
  have "0 \<le> fst st"
    unfolding st_def using keyword_phase_nonneg recency_mono order_trans by blast
  then have "5 \<le> score"
    using first_source_nonneg [of "str_lower env netloc"] by (simp add: score src_def)
  moreover have "asc ''Base AI relevance'' \<notin> fst ` set (snd st)"
    using ex(3) base_label_fresh(1) by (auto simp: st_def dict_keys_def)
  then have m1: "map_of (snd st) (asc ''Base AI relevance'') = None"
    by (simp add: map_of_eq_None_iff)
  have "asc ''Base AI relevance'' \<notin> fst ` set (map source_entry src)"
    using base_not_source_entry [of src] by simp
  then have m2: "map_of (map source_entry src) (asc ''Base AI relevance'') = None"
    by (rule map_of_eq_None_iff [THEN iffD2])
  have "dict_get bd (asc ''Base AI relevance'') = Some 5"
    using m1 m2 by (simp add: bd dict_get_def map_add_def)
  ultimately show ?thesis by simp
qed

theorem base_floor_witness:
  "calculate_relevance_score (cpython 2025) (asc ''http://example.org/x'') []
     = Inr (5, [(asc ''Base AI relevance'', 5)])
   \<and> ((5::int) \<le> 5
      \<and> dict_get [(asc ''Base AI relevance'', 5::int)] (asc ''Base AI relevance'') = Some 5)"
proof -
  have run: "calculate_relevance_score (cpython 2025) (asc ''http://example.org/x'') []
     = Inr (5, [(asc ''Base AI relevance'', 5)])"
    by code_simp
  show ?thesis
    by (rule conjI [OF run base_floor [OF run]])
qed

section \<open>Properties of the selection\<close>

lemma sorted_reverse_sorted:
  "sorted_wrt (\<lambda>a b. key b \<le> key a) (sorted_reverse key xs)"
proof -
  have "sorted (map (\<lambda>x. - key x) (sort_key (\<lambda>x. - key x) xs))"
    by (rule sorted_sort_key)
  then show ?thesis
    by (simp add: sorted_reverse_def sorted_map)
qed

lemma sorted_reverse_stable:
  "filter (\<lambda>x. key x = k) (sorted_reverse key xs) = filter (\<lambda>x. key x = k) xs"
  using sort_key_stable [of "\<lambda>x. - key x" "- k" xs]
  by (simp add: sorted_reverse_def)

lemma mset_sorted_reverse: "mset (sorted_reverse key xs) = mset xs"
  by (simp add: sorted_reverse_def)

lemma length_sorted_reverse: "length (sorted_reverse key xs) = length xs"
  by (simp add: sorted_reverse_def)

lemma slice_to_take: "0 \<le> n \<Longrightarrow> slice_to n xs = take (nat n) xs"
  by (simp add: slice_to_def)

lemma filter_take_prefix: "prefix (filter P (take n xs)) (filter P xs)"
proof -
  have "filter P xs = filter P (take n xs) @ filter P (drop n xs)"
    by (metis append_take_drop_id filter_append)
  then show ?thesis by (simp add: prefix_def)
qed

lemma sorted_wrt_take_drop:
  assumes "sorted_wrt R xs" "x \<in> set (take n xs)" "y \<in> set (drop n xs)"
  shows "R x y"
proof -
  have "sorted_wrt R (take n xs @ drop n xs)" using assms(1) by simp
  then show ?thesis using assms(2,3) unfolding sorted_wrt_append by blast
qed

lemma score_articles_candidates:
  "score_articles env arts = Inr scored \<Longrightarrow> map candidate_of scored = arts"
proof (induction arts arbitrary: scored)
  case Nil
  then show ?case by simp
next
  case (Cons a arts)
  obtain source url title where a: "a = (source, url, title)" by (cases a)
  from Cons.prems obtain score bd rest where
    "calculate_relevance_score env url title = Inr (score, bd)"
    "score_articles env arts = Inr rest" "scored = (source, url, title, score, bd) # rest"
    by (auto simp: a split: sum.splits)
  with Cons.IH [of rest] show ?case by (simp add: a candidate_of_def)
qed

section \<open>The claims about ranking and selection\<close>

text \<open>
  C2. For a positive \<open>top_n\<close>, the selection \<open>sorted(..., reverse=True)[:top_n]\<close> has
  length \<open>min(top_n, len(scored))\<close>, is sorted by descending score, keeps
  candidates of equal score in their input order (for every score, the selected
  candidates of that score are an initial part of the input candidates of that score),
  selects among the input, and leaves out no candidate with a higher score than a
  selected one. The empty input gives the empty output, and
  \<open>create_comprehensive_ai_digest\<close> returns the empty list without an error.
\<close>

theorem top_articles_selection:
  assumes "0 < top_n"
  shows "int (length (top_articles scored top_n)) = min top_n (int (length scored))
    \<and> sorted_wrt (\<lambda>a b. score_key b \<le> score_key a) (top_articles scored top_n)
    \<and> (\<forall>k. prefix (filter (\<lambda>x. score_key x = k) (top_articles scored top_n))
                   (filter (\<lambda>x. score_key x = k) scored))
    \<and> mset (top_articles scored top_n) \<subseteq># mset scored
    \<and> (\<forall>x y. x \<in> set (top_articles scored top_n)
             \<and> y \<in># mset scored - mset (top_articles scored top_n)
           \<longrightarrow> score_key y \<le> score_key x)
    \<and> top_articles [] top_n = []
    \<and> create_comprehensive_ai_digest env [] top_n = Inr []"
proof -
  define S where "S = sorted_reverse score_key scored"
  have top: "top_articles scored top_n = take (nat top_n) S"
    using assms by (simp add: top_articles_def slice_to_take S_def)
  have len: "int (length (top_articles scored top_n)) = min top_n (int (length scored))"
    using assms by (auto simp: top S_def length_sorted_reverse min_def nat_le_iff)
  have srt: "sorted_wrt (\<lambda>a b. score_key b \<le> score_key a) S"
    unfolding S_def by (rule sorted_reverse_sorted)
  then have s1: "sorted_wrt (\<lambda>a b. score_key b \<le> score_key a) (top_articles scored top_n)"
    by (simp add: top)
  have s2: "\<forall>k. prefix (filter (\<lambda>x. score_key x = k) (top_articles scored top_n))
                   (filter (\<lambda>x. score_key x = k) scored)"
  proof
    fix k
    have "prefix (filter (\<lambda>x. score_key x = k) (take (nat top_n) S))
                 (filter (\<lambda>x. score_key x = k) S)"
      by (rule filter_take_prefix)
    then show "prefix (filter (\<lambda>x. score_key x = k) (top_articles scored top_n))
                   (filter (\<lambda>x. score_key x = k) scored)"
      by (simp add: top S_def sorted_reverse_stable)
  qed
  have split: "mset scored = mset (take (nat top_n) S) + mset (drop (nat top_n) S)"
    by (metis S_def append_take_drop_id mset_append mset_sorted_reverse)
  then have s3: "mset (top_articles scored top_n) \<subseteq># mset scored"
    by (simp add: top)
  have rest: "mset scored - mset (top_articles scored top_n) = mset (drop (nat top_n) S)"
    using split by (simp add: top)
  have s4: "\<forall>x y. x \<in> set (top_articles scored top_n)
             \<and> y \<in># mset scored - mset (top_articles scored top_n)
           \<longrightarrow> score_key y \<le> score_key x"
    unfolding rest unfolding top using sorted_wrt_take_drop [OF srt]
    by (metis set_mset_mset)
  have s5: "top_articles [] top_n = []"
    by (simp add: top_articles_def slice_to_def sorted_reverse_def)
  have s6: "create_comprehensive_ai_digest env [] top_n = Inr []"
    by (simp add: create_comprehensive_ai_digest_def)
  from len s1 s2 s3 s4 s5 s6 show ?thesis by (intro conjI)
qed

theorem top_articles_selection_witness:
  "(0::int) < 2
   \<and> (int (length (top_articles
          [(asc ''A'', asc ''a'', [], 40, []), (asc ''B'', asc ''b'', [], 40, []),
           (asc ''C'', asc ''c'', [], 50, [])] 2))
        = min 2 (int (length ([(asc ''A'', asc ''a'', [], 40, []), (asc ''B'', asc ''b'', [], 40, []),
           (asc ''C'', asc ''c'', [], 50, [])]
           :: scored_article list)))
    \<and> sorted_wrt (\<lambda>a b. score_key b \<le> score_key a) (top_articles
          [(asc ''A'', asc ''a'', [], 40, []), (asc ''B'', asc ''b'', [], 40, []),
           (asc ''C'', asc ''c'', [], 50, [])] 2)
    \<and> (\<forall>k. prefix (filter (\<lambda>x. score_key x = k) (top_articles
          [(asc ''A'', asc ''a'', [], 40, []), (asc ''B'', asc ''b'', [], 40, []),
           (asc ''C'', asc ''c'', [], 50, [])] 2))
                   (filter (\<lambda>x. score_key x = k)
          [(asc ''A'', asc ''a'', [], 40, []), (asc ''B'', asc ''b'', [], 40, []),
           (asc ''C'', asc ''c'', [], 50, [])]))
    \<and> mset (top_articles
          [(asc ''A'', asc ''a'', [], 40, []), (asc ''B'', asc ''b'', [], 40, []),
           (asc ''C'', asc ''c'', [], 50, [])] 2) \<subseteq># mset
          [(asc ''A'', asc ''a'', [], 40, []), (asc ''B'', asc ''b'', [], 40, []),
           (asc ''C'', asc ''c'', [], 50, [])]
    \<and> ((asc ''A'', asc ''a'', [], 40, []) \<in> set (top_articles
          [(asc ''A'', asc ''a'', [], 40, []), (asc ''B'', asc ''b'', [], 40, []),
           (asc ''C'', asc ''c'', [], 50, [])] 2)
        \<and> (asc ''B'', asc ''b'', [], 40, []) \<in># mset
          [(asc ''A'', asc ''a'', [], 40, []), (asc ''B'', asc ''b'', [], 40, []),
           (asc ''C'', asc ''c'', [], 50, [])] - mset (top_articles
          [(asc ''A'', asc ''a'', [], 40, []), (asc ''B'', asc ''b'', [], 40, []),
           (asc ''C'', asc ''c'', [], 50, [])] 2))
    \<and> score_key (asc ''B'', asc ''b'', [], 40, []) \<le> score_key (asc ''A'', asc ''a'', [], 40, [])
    \<and> top_articles [] 2 = []
    \<and> create_comprehensive_ai_digest (cpython 2025) [] 2 = Inr [])"
proof -
  have h: "(0::int) < 2" by simp
  note t = top_articles_selection [OF h,
        where scored = "[(asc ''A'', asc ''a'', [], 40, []), (asc ''B'', asc ''b'', [], 40, []),
           (asc ''C'', asc ''c'', [], 50, [])]" and env = "cpython 2025"]
  have top: "top_articles
          [(asc ''A'', asc ''a'', [], 40, []), (asc ''B'', asc ''b'', [], 40, []),
           (asc ''C'', asc ''c'', [], 50, [])] 2
     = [(asc ''C'', asc ''c'', [], 50, []), (asc ''A'', asc ''a'', [], 40, [])]"
    by code_simp
  have mem: "(asc ''A'', asc ''a'', [], 40, []) \<in> set (top_articles
          [(asc ''A'', asc ''a'', [], 40, []), (asc ''B'', asc ''b'', [], 40, []),
           (asc ''C'', asc ''c'', [], 50, [])] 2)
        \<and> (asc ''B'', asc ''b'', [], 40, []) \<in># mset
          [(asc ''A'', asc ''a'', [], 40, []), (asc ''B'', asc ''b'', [], 40, []),
           (asc ''C'', asc ''c'', [], 50, [])] - mset (top_articles
          [(asc ''A'', asc ''a'', [], 40, []), (asc ''B'', asc ''b'', [], 40, []),
           (asc ''C'', asc ''c'', [], 50, [])] 2)"
    unfolding top by (simp add: asc_eq_iff)
  note c = t [THEN conjunct2, THEN conjunct2, THEN conjunct2, THEN conjunct2]
  show ?thesis
    by (rule conjI [OF h conjI [OF t [THEN conjunct1]
         conjI [OF t [THEN conjunct2, THEN conjunct1]
         conjI [OF t [THEN conjunct2, THEN conjunct2, THEN conjunct1]
         conjI [OF t [THEN conjunct2, THEN conjunct2, THEN conjunct2, THEN conjunct1]
         conjI [OF mem
         conjI [OF c [THEN conjunct1, rule_format, OF mem] c [THEN conjunct2]]]]]]]])
qed

text \<open>
  C3, as stated, fails: a URL that two sources yield is scored twice, and both scored
  tuples are in the digest.
\<close>

theorem duplicate_url_ranked_twice:
  "create_comprehensive_ai_digest (cpython 2025)
     [(asc ''TechCrunch'', asc ''https://www.theverge.com/2025/gpt'', []),
      (asc ''The Verge'', asc ''https://www.theverge.com/2025/gpt'', [])] 15
   = Inr [(asc ''TechCrunch'', asc ''https://www.theverge.com/2025/gpt'', [], 36,
           [(asc ''High-value: gpt'', 15), (asc ''Current year'', 8),
            (asc ''Source: theverge.com'', 8), (asc ''Base AI relevance'', 5)]),
          (asc ''The Verge'', asc ''https://www.theverge.com/2025/gpt'', [], 36,
           [(asc ''High-value: gpt'', 15), (asc ''Current year'', 8),
            (asc ''Source: theverge.com'', 8), (asc ''Base AI relevance'', 5)])]"
  by code_simp

text \<open>
  C3, amended. Nothing removes duplicates before scoring: the scoring loop makes one
  scored tuple for every yielded candidate, in input order, and when \<open>top_n\<close> does not
  cut the list the digest holds every candidate as often as it was yielded.
\<close>

theorem every_candidate_scored:
  "(\<forall>scored. score_articles env all_articles = Inr scored
       \<longrightarrow> map candidate_of scored = all_articles)
   \<and> (\<forall>out. create_comprehensive_ai_digest env all_articles top_n = Inr out
          \<and> int (length all_articles) \<le> top_n
       \<longrightarrow> mset (map candidate_of out) = mset all_articles)"
proof (intro conjI allI impI)
  fix scored assume "score_articles env all_articles = Inr scored"
  then show "map candidate_of scored = all_articles" by (rule score_articles_candidates)
next
  fix out
  assume a: "create_comprehensive_ai_digest env all_articles top_n = Inr out
          \<and> int (length all_articles) \<le> top_n"
  show "mset (map candidate_of out) = mset all_articles"
  proof (cases "all_articles = []")
    case True
    with a show ?thesis by (simp add: create_comprehensive_ai_digest_def)
  next
    case False
    with a obtain scored where sc: "score_articles env all_articles = Inr scored"
      and out: "out = top_articles scored top_n"
      by (auto simp: create_comprehensive_ai_digest_def split: sum.splits)
    have l: "length scored = length all_articles"
      using score_articles_candidates [OF sc] by (metis length_map)
    from a have "int (length all_articles) \<le> top_n" by simp
    then have "out = sorted_reverse score_key scored"
      using l by (simp add: out top_articles_def slice_to_def length_sorted_reverse nat_le_iff)
    then have "mset out = mset scored" by (simp add: mset_sorted_reverse)
    then have "mset (map candidate_of out) = mset (map candidate_of scored)"
      by (metis mset_map)
    then show ?thesis using score_articles_candidates [OF sc] by simp
  qed
qed

theorem every_candidate_scored_witness:
  "(score_articles (cpython 2025)
     [(asc ''TechCrunch'', asc ''https://www.theverge.com/2025/gpt'', []),
      (asc ''The Verge'', asc ''https://www.theverge.com/2025/gpt'', [])]
    = Inr [(asc ''TechCrunch'', asc ''https://www.theverge.com/2025/gpt'', [], 36,
           [(asc ''High-value: gpt'', 15), (asc ''Current year'', 8),
            (asc ''Source: theverge.com'', 8), (asc ''Base AI relevance'', 5)]),
          (asc ''The Verge'', asc ''https://www.theverge.com/2025/gpt'', [], 36,
           [(asc ''High-value: gpt'', 15), (asc ''Current year'', 8),
            (asc ''Source: theverge.com'', 8), (asc ''Base AI relevance'', 5)])]
    \<and> map candidate_of
         [(asc ''TechCrunch'', asc ''https://www.theverge.com/2025/gpt'', [], 36,
           [(asc ''High-value: gpt'', 15), (asc ''Current year'', 8),
            (asc ''Source: theverge.com'', 8), (asc ''Base AI relevance'', 5)]),
          (asc ''The Verge'', asc ''https://www.theverge.com/2025/gpt'', [], 36,
           [(asc ''High-value: gpt'', 15), (asc ''Current year'', 8),
            (asc ''Source: theverge.com'', 8), (asc ''Base AI relevance'', 5)])]
      = [(asc ''TechCrunch'', asc ''https://www.theverge.com/2025/gpt'', []),
      (asc ''The Verge'', asc ''https://www.theverge.com/2025/gpt'', [])])
   \<and> ((create_comprehensive_ai_digest (cpython 2025)
         [(asc ''TechCrunch'', asc ''https://www.theverge.com/2025/gpt'', []),
      (asc ''The Verge'', asc ''https://www.theverge.com/2025/gpt'', [])] 15
        = Inr [(asc ''TechCrunch'', asc ''https://www.theverge.com/2025/gpt'', [], 36,
           [(asc ''High-value: gpt'', 15), (asc ''Current year'', 8),
            (asc ''Source: theverge.com'', 8), (asc ''Base AI relevance'', 5)]),
          (asc ''The Verge'', asc ''https://www.theverge.com/2025/gpt'', [], 36,
           [(asc ''High-value: gpt'', 15), (asc ''Current year'', 8),
            (asc ''Source: theverge.com'', 8), (asc ''Base AI relevance'', 5)])]
        \<and> int (length ([(asc ''TechCrunch'', asc ''https://www.theverge.com/2025/gpt'', []),
      (asc ''The Verge'', asc ''https://www.theverge.com/2025/gpt'', [])] :: candidate list)) \<le> 15)
      \<and> mset (map candidate_of
         [(asc ''TechCrunch'', asc ''https://www.theverge.com/2025/gpt'', [], 36,
           [(asc ''High-value: gpt'', 15), (asc ''Current year'', 8),
            (asc ''Source: theverge.com'', 8), (asc ''Base AI relevance'', 5)]),
          (asc ''The Verge'', asc ''https://www.theverge.com/2025/gpt'', [], 36,
           [(asc ''High-value: gpt'', 15), (asc ''Current year'', 8),
            (asc ''Source: theverge.com'', 8), (asc ''Base AI relevance'', 5)])])
        = mset [(asc ''TechCrunch'', asc ''https://www.theverge.com/2025/gpt'', []),
      (asc ''The Verge'', asc ''https://www.theverge.com/2025/gpt'', [])])"
proof -
  have run: "score_articles (cpython 2025)
     [(asc ''TechCrunch'', asc ''https://www.theverge.com/2025/gpt'', []),
      (asc ''The Verge'', asc ''https://www.theverge.com/2025/gpt'', [])]
    = Inr [(asc ''TechCrunch'', asc ''https://www.theverge.com/2025/gpt'', [], 36,
           [(asc ''High-value: gpt'', 15), (asc ''Current year'', 8),
            (asc ''Source: theverge.com'', 8), (asc ''Base AI relevance'', 5)]),
          (asc ''The Verge'', asc ''https://www.theverge.com/2025/gpt'', [], 36,
           [(asc ''High-value: gpt'', 15), (asc ''Current year'', 8),
            (asc ''Source: theverge.com'', 8), (asc ''Base AI relevance'', 5)])]"
    by code_simp
  have dig: "create_comprehensive_ai_digest (cpython 2025)
         [(asc ''TechCrunch'', asc ''https://www.theverge.com/2025/gpt'', []),
      (asc ''The Verge'', asc ''https://www.theverge.com/2025/gpt'', [])] 15
        = Inr [(asc ''TechCrunch'', asc ''https://www.theverge.com/2025/gpt'', [], 36,
           [(asc ''High-value: gpt'', 15), (asc ''Current year'', 8),
            (asc ''Source: theverge.com'', 8), (asc ''Base AI relevance'', 5)]),
          (asc ''The Verge'', asc ''https://www.theverge.com/2025/gpt'', [], 36,
           [(asc ''High-value: gpt'', 15), (asc ''Current year'', 8),
            (asc ''Source: theverge.com'', 8), (asc ''Base AI relevance'', 5)])]
        \<and> int (length ([(asc ''TechCrunch'', asc ''https://www.theverge.com/2025/gpt'', []),
      (asc ''The Verge'', asc ''https://www.theverge.com/2025/gpt'', [])] :: candidate list)) \<le> 15"
    by code_simp
  note t = every_candidate_scored [where env = "cpython 2025" and top_n = 15 and all_articles =
     "[(asc ''TechCrunch'', asc ''https://www.theverge.com/2025/gpt'', []),
      (asc ''The Verge'', asc ''https://www.theverge.com/2025/gpt'', [])]"]
  show ?thesis
    by (rule conjI [OF conjI [OF run t [THEN conjunct1, rule_format, OF run]]
          conjI [OF dig t [THEN conjunct2, rule_format, OF dig]]])
qed

section \<open>Properties of the collector\<close>

lemma calls_record_call [simp]: "calls (record_call cand c st) = calls st @ [(cand, c)]"
  by (simp add: record_call_def)

lemma summarize_step_calls:
  assumes "summarize_step svc cand data i st = r"
  shows "set (calls (case r of Inl s \<Rightarrow> s | Inr s \<Rightarrow> s)) \<subseteq> set (calls st) \<union> {cand} \<times> UNIV"
  using assms
  by (auto simp: summarize_step_def Let_def split: option.splits if_splits sum.splits)

lemma try_article_not_admitted: "\<not> admitted svc cand \<Longrightarrow> try_article svc cand st = st"
  by (auto simp: admitted_def try_article_def split: prod.splits sum.splits)

lemma try_article_calls:
  "set (calls (try_article svc cand st)) \<subseteq> set (calls st) \<union> {cand} \<times> UNIV"
proof -
  obtain source url title where c: "cand = (source, url, title)" by (cases cand)
  show ?thesis
  proof (cases "relevance_score svc url title")
    case (Inl e)
    then show ?thesis by (simp add: try_article_def c)
  next
    case (Inr r)
    obtain score bd where r: "r = (score, bd)" by (cases r)
    show ?thesis
    proof (cases "score < 30")
      case True
      with Inr r show ?thesis by (simp add: try_article_def c)
    next
      case False
      note hi = False
      define st1 where "st1 = record_call cand ExtractArticle st"
      show ?thesis
      proof (cases "extract_article svc url source")
        case (Inl e)
        with Inr r hi show ?thesis by (auto simp: try_article_def c Let_def)
      next
        case ex: (Inr extracted)
        define data where "data = extracted\<lparr> d_source := Some source,
                                                   d_relevance_score := Some score \<rparr>"
        define st2 where "st2 = record_call cand AddArticle st1"
        have c2: "set (calls st2) \<subseteq> set (calls st) \<union> {cand} \<times> UNIV"
          by (auto simp: st2_def st1_def)
        show ?thesis
        proof (cases "add_article (md5_hexdigest svc) (timestamp svc) (db st2) data")
          case (Inl e)
          with Inr r hi ex c2 show ?thesis
            by (simp add: try_article_def c Let_def st1_def st2_def data_def)
        next
          case ad: (Inr p)
          obtain article_id db' where p: "p = (article_id, db')" by (cases p)
          define res where "res = summarize_step svc cand data article_id (st2\<lparr> db := db' \<rparr>)"
          have c3: "set (calls (case res of Inl s \<Rightarrow> s | Inr s \<Rightarrow> s))
                    \<subseteq> set (calls st) \<union> {cand} \<times> UNIV"
            using summarize_step_calls [OF res_def [symmetric]] c2 by auto
          have "try_article svc cand st =
                  (case res of Inl st3 \<Rightarrow> st3
                   | Inr st3 \<Rightarrow> st3\<lparr> processed_by_source :=
                        dict_set (processed_by_source st3) source
                          (get_default (dict_get (processed_by_source st3) source) 0 + 1) \<rparr>)"
            using Inr r hi ex ad p
            by (simp add: try_article_def c Let_def st1_def st2_def data_def res_def)
          with c3 show ?thesis by (cases res) simp_all
        qed
      qed
    qed
  qed
qed

lemma process_article_calls:
  "set (calls (process_article svc lim st cand))
     \<subseteq> set (calls st) \<union> (if admitted svc cand then {cand} \<times> UNIV else {})"
proof -
  obtain source url title where c: "cand = (source, url, title)" by (cases cand)
  define st' where "st' = (if source \<in> set (dict_keys (processed_by_source st)) then st
                   else st\<lparr> processed_by_source := dict_set (processed_by_source st) source 0 \<rparr>)"
  have cs: "calls st' = calls st" by (simp add: st'_def)
  have pa: "process_article svc lim st cand =
      (if lim \<le> get_default (dict_get (processed_by_source st') source) 0 then st'
       else try_article svc cand st')"
    by (simp add: process_article_def c st'_def Let_def)
  show ?thesis
  proof (cases "admitted svc cand")
    case True
    then show ?thesis using try_article_calls [of svc cand st'] cs by (auto simp: pa)
  next
    case False
    then show ?thesis using cs by (simp add: pa try_article_not_admitted)
  qed
qed

lemma process_article_not_admitted:
  assumes "\<not> admitted svc cand"
  shows "db (process_article svc lim st cand) = db st
       \<and> calls (process_article svc lim st cand) = calls st
       \<and> new_articles_count (process_article svc lim st cand) = new_articles_count st"
proof -
  obtain source url title where c: "cand = (source, url, title)" by (cases cand)
  show ?thesis
    using assms by (simp add: process_article_def c Let_def try_article_not_admitted)
qed

lemma foldl_process_article_calls:
  "set (calls (foldl (process_article svc lim) st arts))
     \<subseteq> set (calls st) \<union> {cand. cand \<in> set arts \<and> admitted svc cand} \<times> UNIV"
proof (induction arts arbitrary: st)
  case Nil
  then show ?case by simp
next
  case (Cons a arts)
  have "set (calls (foldl (process_article svc lim) (process_article svc lim st a) arts))
     \<subseteq> set (calls (process_article svc lim st a))
       \<union> {cand. cand \<in> set arts \<and> admitted svc cand} \<times> UNIV"
    by (rule Cons.IH)
  also have "\<dots> \<subseteq> (set (calls st) \<union> (if admitted svc a then {a} \<times> UNIV else {}))
       \<union> {cand. cand \<in> set arts \<and> admitted svc cand} \<times> UNIV"
    using process_article_calls [of svc lim st a] by blast
  also have "\<dots> \<subseteq> set (calls st) \<union> {cand. cand \<in> set (a # arts) \<and> admitted svc cand} \<times> UNIV"
    by auto
  finally show ?case by simp
qed

section \<open>The claim about the collector\<close>

text \<open>
  C5. Every call of a collection run to the extractor, the store or the summarizer is
  made for a candidate of the input whose score was returned and is at least 30; a
  candidate that is not admitted (score below 30, or the scorer raised) leaves the
  database, the calls and the count of new articles as they were.
\<close>

theorem only_admitted_candidates_processed:
  "(\<forall>x \<in> set (calls (snd (collect_and_process_articles svc db0 all_articles limit_per_source))).
       fst x \<in> set all_articles \<and> admitted svc (fst x))
   \<and> (\<forall>st cand. \<not> admitted svc cand \<longrightarrow>
         db (process_article svc limit_per_source st cand) = db st
       \<and> calls (process_article svc limit_per_source st cand) = calls st
       \<and> new_articles_count (process_article svc limit_per_source st cand)
           = new_articles_count st)"
proof (intro conjI ballI allI impI)
  fix x
  assume x: "x \<in> set (calls (snd (collect_and_process_articles svc db0 all_articles
      limit_per_source)))"
  define st0 :: collect_state
    where "st0 = \<lparr> db = db0, processed_by_source = [], new_articles_count = 0, calls = [] \<rparr>"
  have "set (calls (snd (collect_and_process_articles svc db0 all_articles limit_per_source)))
        \<subseteq> set (calls (foldl (process_article svc limit_per_source) st0 all_articles))"
    by (simp add: collect_and_process_articles_def Let_def st0_def)
  also have "\<dots> \<subseteq> {cand. cand \<in> set all_articles \<and> admitted svc cand} \<times> UNIV"
    using foldl_process_article_calls [of svc limit_per_source st0 all_articles]
    by (simp add: st0_def)
  finally have "x \<in> {cand. cand \<in> set all_articles \<and> admitted svc cand} \<times> UNIV"
    using x by blast
  then show "fst x \<in> set all_articles" "admitted svc (fst x)" by auto
next
  fix st cand assume "\<not> admitted svc cand"
  then show "db (process_article svc limit_per_source st cand) = db st"
    "calls (process_article svc limit_per_source st cand) = calls st"
    "new_articles_count (process_article svc limit_per_source st cand) = new_articles_count st"
    using process_article_not_admitted by blast+
qed

theorem only_admitted_candidates_processed_witness:
  "calls (snd (collect_and_process_articles sample_services empty_database
       [(asc ''TechCrunch'', asc ''https://techcrunch.com/2025/openai-gpt'', []),
        (asc ''Wired'', asc ''https://www.wired.com/story/x'', [])] 10))
   = [((asc ''TechCrunch'', asc ''https://techcrunch.com/2025/openai-gpt'', []), ExtractArticle),
      ((asc ''TechCrunch'', asc ''https://techcrunch.com/2025/openai-gpt'', []), AddArticle),
      ((asc ''TechCrunch'', asc ''https://techcrunch.com/2025/openai-gpt'', []), SummarizeArticle),
      ((asc ''TechCrunch'', asc ''https://techcrunch.com/2025/openai-gpt'', []),
       UpdateArticleSummary)]
   \<and> ((asc ''TechCrunch'', asc ''https://techcrunch.com/2025/openai-gpt'', []), ExtractArticle)
       \<in> set (calls (snd (collect_and_process_articles sample_services empty_database
       [(asc ''TechCrunch'', asc ''https://techcrunch.com/2025/openai-gpt'', []),
        (asc ''Wired'', asc ''https://www.wired.com/story/x'', [])] 10)))
   \<and> (fst ((asc ''TechCrunch'', asc ''https://techcrunch.com/2025/openai-gpt'', []), ExtractArticle)
         \<in> set ([(asc ''TechCrunch'', asc ''https://techcrunch.com/2025/openai-gpt'', []),
        (asc ''Wired'', asc ''https://www.wired.com/story/x'', [])] :: candidate list)
      \<and> admitted sample_services
           (fst ((asc ''TechCrunch'', asc ''https://techcrunch.com/2025/openai-gpt'', []), ExtractArticle)))
   \<and> \<not> admitted sample_services (asc ''Wired'', asc ''https://www.wired.com/story/x'', [])
   \<and> (db (process_article sample_services 10
            \<lparr> db = empty_database, processed_by_source = [], new_articles_count = 0, calls = [] \<rparr>
            (asc ''Wired'', asc ''https://www.wired.com/story/x'', []))
        = db \<lparr> db = empty_database, processed_by_source = [], new_articles_count = 0, calls = [] \<rparr>
      \<and> calls (process_article sample_services 10
            \<lparr> db = empty_database, processed_by_source = [], new_articles_count = 0, calls = [] \<rparr>
            (asc ''Wired'', asc ''https://www.wired.com/story/x'', []))
        = calls \<lparr> db = empty_database, processed_by_source = [], new_articles_count = 0, calls = [] \<rparr>
      \<and> new_articles_count (process_article sample_services 10
            \<lparr> db = empty_database, processed_by_source = [], new_articles_count = 0, calls = [] \<rparr>
            (asc ''Wired'', asc ''https://www.wired.com/story/x'', []))
        = new_articles_count \<lparr> db = empty_database, processed_by_source = [], new_articles_count = 0, calls = [] \<rparr>)"
proof -
  have run: "calls (snd (collect_and_process_articles sample_services empty_database
       [(asc ''TechCrunch'', asc ''https://techcrunch.com/2025/openai-gpt'', []),
        (asc ''Wired'', asc ''https://www.wired.com/story/x'', [])] 10))
   = [((asc ''TechCrunch'', asc ''https://techcrunch.com/2025/openai-gpt'', []), ExtractArticle),
      ((asc ''TechCrunch'', asc ''https://techcrunch.com/2025/openai-gpt'', []), AddArticle),
      ((asc ''TechCrunch'', asc ''https://techcrunch.com/2025/openai-gpt'', []), SummarizeArticle),
      ((asc ''TechCrunch'', asc ''https://techcrunch.com/2025/openai-gpt'', []),
       UpdateArticleSummary)]"
    by code_simp
  have mem: "((asc ''TechCrunch'', asc ''https://techcrunch.com/2025/openai-gpt'', []), ExtractArticle)
       \<in> set (calls (snd (collect_and_process_articles sample_services empty_database
       [(asc ''TechCrunch'', asc ''https://techcrunch.com/2025/openai-gpt'', []),
        (asc ''Wired'', asc ''https://www.wired.com/story/x'', [])] 10)))"
    unfolding run by simp
  have low: "\<not> admitted sample_services (asc ''Wired'', asc ''https://www.wired.com/story/x'', [])"
    by code_simp
  note t = only_admitted_candidates_processed [where svc = sample_services
      and ?db0.0 = empty_database and limit_per_source = 10 and all_articles =
       "[(asc ''TechCrunch'', asc ''https://techcrunch.com/2025/openai-gpt'', []),
        (asc ''Wired'', asc ''https://www.wired.com/story/x'', [])]"]
  have adm: "fst ((asc ''TechCrunch'', asc ''https://techcrunch.com/2025/openai-gpt'', []), ExtractArticle)
         \<in> set ([(asc ''TechCrunch'', asc ''https://techcrunch.com/2025/openai-gpt'', []),
        (asc ''Wired'', asc ''https://www.wired.com/story/x'', [])] :: candidate list)
      \<and> admitted sample_services
           (fst ((asc ''TechCrunch'', asc ''https://techcrunch.com/2025/openai-gpt'', []), ExtractArticle))"
    using t [THEN conjunct1] mem by (rule bspec)
  have skip: "db (process_article sample_services 10
            \<lparr> db = empty_database, processed_by_source = [], new_articles_count = 0, calls = [] \<rparr>
            (asc ''Wired'', asc ''https://www.wired.com/story/x'', []))
        = db \<lparr> db = empty_database, processed_by_source = [], new_articles_count = 0, calls = [] \<rparr>
      \<and> calls (process_article sample_services 10
            \<lparr> db = empty_database, processed_by_source = [], new_articles_count = 0, calls = [] \<rparr>
            (asc ''Wired'', asc ''https://www.wired.com/story/x'', []))
        = calls \<lparr> db = empty_database, processed_by_source = [], new_articles_count = 0, calls = [] \<rparr>
      \<and> new_articles_count (process_article sample_services 10
            \<lparr> db = empty_database, processed_by_source = [], new_articles_count = 0, calls = [] \<rparr>
            (asc ''Wired'', asc ''https://www.wired.com/story/x'', []))
        = new_articles_count \<lparr> db = empty_database, processed_by_source = [], new_articles_count = 0, calls = [] \<rparr>"
    using low by (rule t [THEN conjunct2, rule_format])
  show ?thesis
    by (rule conjI [OF run conjI [OF mem conjI [OF adm conjI [OF low skip]]]])
qed

section \<open>Properties of the store\<close>

lemma find_None_iff': "find P xs = None \<longleftrightarrow> (\<forall>x\<in>set xs. \<not> P x)"
  by (induction xs) auto

lemma find_distinct_key:
  "distinct (map f xs) \<Longrightarrow> r \<in> set xs \<Longrightarrow> find (\<lambda>x. f x = f r) xs = Some r"
  by (induction xs) (auto simp: rev_image_eqI)

lemma find_append_None: "find P xs = None \<Longrightarrow> find P (xs @ ys) = find P ys"
  by (induction xs) (auto split: if_splits)

lemma distinct_map_eq:
  "distinct (map f xs) \<Longrightarrow> x \<in> set xs \<Longrightarrow> y \<in> set xs \<Longrightarrow> f x = f y \<Longrightarrow> x = y"
  by (meson distinct_map inj_onD)

lemma inserted_row_sel [simp]:
  "a_id (inserted_row i u h n data) = i"
  "a_url (inserted_row i u h n data) = u"
  "a_url_hash (inserted_row i u h n data) = h"
  by (simp_all add: inserted_row_def)

lemma add_article_cases:
  assumes "add_article md5 now d data = Inr (i, d')"
  obtains (existing) url h r where "d_url data = Some url" "md5 url = Inr h"
      "find (\<lambda>r. a_url_hash r = h) (articles_tbl d) = Some r" "i = a_id r" "d' = d"
  | (inserted) url h row where "d_url data = Some url" "md5 url = Inr h"
      "find (\<lambda>r. a_url_hash r = h) (articles_tbl d) = None"
      "\<not> list_ex (\<lambda>r. a_url r = url) (articles_tbl d)"
      "i = articles_seq d + 1" "a_id row = i" "a_url row = url" "a_url_hash row = h"
      "d' = d\<lparr> articles_tbl := articles_tbl d @ [row], articles_seq := i \<rparr>"
proof (cases "d_url data")
  case None
  with assms show ?thesis by (simp add: add_article_def)
next
  case (Some url)
  note url = Some
  show ?thesis
  proof (cases "md5 url")
    case (Inl e)
    with assms url show ?thesis by (simp add: add_article_def generate_url_hash_def)
  next
    case (Inr h)
    note h = Inr
    show ?thesis
    proof (cases "find (\<lambda>r. a_url_hash r = h) (articles_tbl d)")
      case (Some r)
      with assms url h have "i = a_id r" "d' = d"
        by (simp_all add: add_article_def generate_url_hash_def)
      with existing Some url h show ?thesis by blast
    next
      case None
      note nf = None
      define row where "row = inserted_row (articles_seq d + 1) url h now data"
      from assms nf url h
      have ok: "\<not> list_ex (\<lambda>r. a_url r = url) (articles_tbl d)"
        and res: "i = articles_seq d + 1"
          "d' = d\<lparr> articles_tbl := articles_tbl d @ [row], articles_seq := i \<rparr>"
        by (auto simp: add_article_def generate_url_hash_def Let_def row_def split: if_splits)
      moreover have "a_id row = articles_seq d + 1" "a_url row = url" "a_url_hash row = h"
        by (simp_all add: row_def)
      ultimately show ?thesis
        using inserted [of url h row] nf url h by simp
    qed
  qed
qed

lemma add_article_invariant:
  assumes "store_invariant md5 d" "add_article md5 now d data = Inr (i, d')"
  shows "store_invariant md5 d'"
  using assms(2)
proof (cases rule: add_article_cases)
  case (existing url h r)
  then show ?thesis using assms(1) by simp
next
  case (inserted url h row)
  have "h \<notin> a_url_hash ` set (articles_tbl d)"
    using inserted(3) by (auto simp: find_None_iff')
  moreover have "i \<notin> a_id ` set (articles_tbl d)"
    using assms(1) inserted(5) by (auto simp: store_invariant_def list_all_iff)
  ultimately show ?thesis
    using assms(1) inserted
    by (auto simp: store_invariant_def list_all_iff)
qed

lemma add_article_again:
  assumes "add_article md5 now d data = Inr (i, d')" "d_url data' = d_url data"
  shows "add_article md5 now' d' data' = Inr (i, d')"
  using assms(1)
proof (cases rule: add_article_cases)
  case (existing url h r)
  then show ?thesis using assms(2)
    by (simp add: add_article_def generate_url_hash_def)
next
  case (inserted url h row)
  have "find (\<lambda>r. a_url_hash r = h) (articles_tbl d @ [row]) = Some row"
    using inserted(3,8) by (simp add: find_append_None)
  then show ?thesis using assms(2) inserted
    by (simp add: add_article_def generate_url_hash_def)
qed

lemma add_article_stored:
  assumes "store_invariant md5 d" "r \<in> set (articles_tbl d)" "d_url data = Some (a_url r)"
  shows "add_article md5 now d data = Inr (a_id r, d)"
proof -
  have "md5 (a_url r) = Inr (a_url_hash r)"
    using assms(1,2) by (auto simp: store_invariant_def list_all_iff)
  moreover have "find (\<lambda>x. a_url_hash x = a_url_hash r) (articles_tbl d) = Some r"
    using assms(1,2) find_distinct_key [of a_url_hash] by (auto simp: store_invariant_def)
  ultimately show ?thesis using assms(3)
    by (simp add: add_article_def generate_url_hash_def)
qed



lemma add_article_row:
  assumes "add_article md5 now d data = Inr (i, d')" "d_url data = Some u"
  obtains h r where "md5 u = Inr h" "r \<in> set (articles_tbl d')" "a_id r = i"
    "a_url_hash r = h" "set (articles_tbl d) \<subseteq> set (articles_tbl d')"
  using assms(1)
proof (cases rule: add_article_cases)
  case (existing url h r)
  then have "r \<in> set (articles_tbl d)"
    by (auto simp: find_Some_iff)
  moreover have "a_url_hash r = h"
    using existing(3) by (auto simp: find_Some_iff)
  ultimately show ?thesis using that [of h r] existing assms(2) by simp
next
  case (inserted url h row)
  then show ?thesis using that [of h row] assms(2) by auto
qed

lemma add_article_ids:
  assumes inv: "store_invariant md5 d"
    and urls: "d_url data1 = Some u1" "d_url data2 = Some u2"
    and a1: "add_article md5 now1 d data1 = Inr (i1, d1)"
    and a2: "add_article md5 now2 d1 data2 = Inr (i2, d2)"
  obtains r1 r2 where "r1 \<in> set (articles_tbl d2)" "r2 \<in> set (articles_tbl d2)"
    "a_id r1 = i1" "a_id r2 = i2" "md5 u1 = Inr (a_url_hash r1)" "md5 u2 = Inr (a_url_hash r2)"
    "(r1 = r2) = (i1 = i2)" "(r1 = r2) = (md5 u1 = md5 u2)"
proof -
  from a1 urls(1) obtain h1 r1 where r1: "md5 u1 = Inr h1" "r1 \<in> set (articles_tbl d1)"
      "a_id r1 = i1" "a_url_hash r1 = h1"
    by (rule add_article_row)
  from a2 urls(2) obtain h2 r2 where r2: "md5 u2 = Inr h2" "r2 \<in> set (articles_tbl d2)"
      "a_id r2 = i2" "a_url_hash r2 = h2" and sub: "set (articles_tbl d1) \<subseteq> set (articles_tbl d2)"
    by (rule add_article_row)
  have inv2: "store_invariant md5 d2"
    using inv a1 a2 add_article_invariant by blast
  have in2: "r1 \<in> set (articles_tbl d2)" using r1(2) sub by blast
  have ids: "(r1 = r2) = (i1 = i2)"
    using distinct_map_eq [of a_id "articles_tbl d2" r1 r2] inv2 in2 r2(2) r1(3) r2(3)
    by (auto simp: store_invariant_def)
  have hashes: "(r1 = r2) = (md5 u1 = md5 u2)"
    using distinct_map_eq [of a_url_hash "articles_tbl d2" r1 r2] inv2 in2 r2(2) r1(1,4) r2(1,4)
    by (auto simp: store_invariant_def)
  show ?thesis
    using that [of r1 r2] in2 r2(2) r1(3) r2(3) r1(1,4) r2(1,4) ids hashes by simp
qed


lemma update_article_summary_invariant:
  "store_invariant md5 (update_article_summary now d article_id summary) = store_invariant md5 d"
proof -
  let ?f = "\<lambda>r. if a_id r = article_id
                    then r\<lparr> a_summary := summary, a_updated_at := now \<rparr> else r"
  have h: "a_url_hash (?f r) = a_url_hash r" "a_id (?f r) = a_id r" "a_url (?f r) = a_url r" for r
    by simp_all
  have m1: "map a_url_hash (map ?f (articles_tbl d)) = map a_url_hash (articles_tbl d)"
    and m2: "map a_id (map ?f (articles_tbl d)) = map a_id (articles_tbl d)"
    unfolding map_map comp_def h by simp_all
  have m3: "list_all (\<lambda>r. md5 (a_url r) = Inr (a_url_hash r) \<and> a_id r \<le> articles_seq d)
                   (map ?f (articles_tbl d))
     = list_all (\<lambda>r. md5 (a_url r) = Inr (a_url_hash r) \<and> a_id r \<le> articles_seq d)
         (articles_tbl d)"
    unfolding list_all_iff set_map ball_simps h ..
  have sel: "articles_tbl (update_article_summary now d article_id summary)
               = map ?f (articles_tbl d)"
    "articles_seq (update_article_summary now d article_id summary) = articles_seq d"
    by (simp_all add: update_article_summary_def)
  show ?thesis
    by (simp only: store_invariant_def sel m1 m2 m3)
qed

lemma update_source_stats_invariant:
  "store_invariant md5 (update_source_stats day d source found processed) = store_invariant md5 d"
  by (simp add: store_invariant_def update_source_stats_def)

text \<open>The digests of the example URL of database.py and of four variants of it.\<close>

lemma url_md5_example:
  "url_md5 (asc ''https://example.com/test-article'')
     = Inr (asc ''6b4c16dd598c2e53c58430c6adcfe2b4'')"
  by code_simp





lemma sample_store_invariant: "store_invariant url_md5 sample_store"
  by (simp add: store_invariant_def sample_store_def url_md5_example)




section \<open>The claims about the store\<close>

text \<open>
  C6. In a store filled by \<open>add_article\<close>, a successful \<open>add_article\<close> keeps the
  invariant, so no two rows share a \<open>url_hash\<close>; calling it again with any article data
  of the same URL returns the same id and leaves the database as it is; and when a row
  of the store already has the URL, the call returns that row's id and changes nothing.
\<close>

theorem add_article_idempotent:
  assumes "store_invariant md5 d" and "add_article md5 now d data = Inr (i, d')"
  shows "store_invariant md5 d'
       \<and> distinct (map a_url_hash (articles_tbl d'))
       \<and> (\<forall>data' now'. d_url data' = d_url data
             \<longrightarrow> add_article md5 now' d' data' = Inr (i, d'))
       \<and> (\<forall>r \<in> set (articles_tbl d). d_url data = Some (a_url r) \<longrightarrow> i = a_id r \<and> d' = d)"
proof (intro conjI allI impI ballI)
  show inv': "store_invariant md5 d'"
    using assms by (rule add_article_invariant)
  then show "distinct (map a_url_hash (articles_tbl d'))"
    by (simp add: store_invariant_def)
next
  fix data' :: article_data and now' :: nat
  assume "d_url data' = d_url data"
  with assms(2) show "add_article md5 now' d' data' = Inr (i, d')"
    by (rule add_article_again)
next
  fix r assume "r \<in> set (articles_tbl d)" "d_url data = Some (a_url r)"
  with assms(1) have "add_article md5 now d data = Inr (a_id r, d)"
    by (rule add_article_stored)
  with assms(2) show "i = a_id r" "d' = d" by simp_all
qed

theorem add_article_idempotent_witness:
  "(store_invariant url_md5 sample_store
    \<and> add_article url_md5 5 sample_store
          (sample_article (asc ''https://example.com/test-article'')) = Inr (1, sample_store))
   \<and> store_invariant url_md5 sample_store
   \<and> distinct (map a_url_hash (articles_tbl sample_store))
   \<and> d_url ((sample_article (asc ''https://example.com/test-article''))\<lparr> d_title := Some (asc ''Another title'') \<rparr>)
       = d_url (sample_article (asc ''https://example.com/test-article''))
   \<and> add_article url_md5 7 sample_store
        ((sample_article (asc ''https://example.com/test-article''))\<lparr> d_title := Some (asc ''Another title'') \<rparr>)
       = Inr (1, sample_store)
   \<and> inserted_row 1 (asc ''https://example.com/test-article'') (asc ''6b4c16dd598c2e53c58430c6adcfe2b4'') 0 (sample_article (asc ''https://example.com/test-article''))
       \<in> set (articles_tbl sample_store)
   \<and> d_url (sample_article (asc ''https://example.com/test-article''))
       = Some (a_url (inserted_row 1 (asc ''https://example.com/test-article'') (asc ''6b4c16dd598c2e53c58430c6adcfe2b4'') 0
                       (sample_article (asc ''https://example.com/test-article''))))
   \<and> (1 = a_id (inserted_row 1 (asc ''https://example.com/test-article'') (asc ''6b4c16dd598c2e53c58430c6adcfe2b4'') 0
                   (sample_article (asc ''https://example.com/test-article'')))
      \<and> sample_store = sample_store)"
proof -
  have inv: "store_invariant url_md5 sample_store"
    by (rule sample_store_invariant)
  have row: "inserted_row 1 (asc ''https://example.com/test-article'') (asc ''6b4c16dd598c2e53c58430c6adcfe2b4'') 0 (sample_article (asc ''https://example.com/test-article''))
       \<in> set (articles_tbl sample_store)"
    by (simp add: sample_store_def)
  have url: "d_url (sample_article (asc ''https://example.com/test-article''))
       = Some (a_url (inserted_row 1 (asc ''https://example.com/test-article'') (asc ''6b4c16dd598c2e53c58430c6adcfe2b4'') 0
                       (sample_article (asc ''https://example.com/test-article''))))"
    by (simp add: sample_article_def)
  have run: "add_article url_md5 5 sample_store
          (sample_article (asc ''https://example.com/test-article'')) = Inr (1, sample_store)"
    using add_article_stored [OF inv row url, of 5] by simp
  note t = add_article_idempotent [OF inv run]
  have same: "d_url ((sample_article (asc ''https://example.com/test-article''))\<lparr> d_title := Some (asc ''Another title'') \<rparr>)
       = d_url (sample_article (asc ''https://example.com/test-article''))"
    by simp
  note t3 = t [THEN conjunct2, THEN conjunct2]
  show ?thesis
    by (rule conjI [OF conjI [OF inv run] conjI [OF t [THEN conjunct1]
          conjI [OF t [THEN conjunct2, THEN conjunct1]
          conjI [OF same conjI [OF t3 [THEN conjunct1, rule_format, OF same, of 7]
          conjI [OF row conjI [OF url
            t3 [THEN conjunct2, THEN bspec, OF row, rule_format, OF url]]]]]]]])
qed




section \<open>The claim about the digest formatter\<close>

lemma length_enumerate1: "length (enumerate1 xs) = length xs"
  by (simp add: enumerate1_def del: upt_Suc)

text \<open>
  C9. The long format renders \<open>min(10, len(articles))\<close> entries, those of the first
  ten articles; the articles after the tenth reach the message only through the two
  counts of the header. The short format renders the first eight articles and nothing
  else of the list. The text that \<open>send_digest\<close> posts is one of the two, so of 15
  articles at most 10 are published.
\<close>

theorem digest_renders_first_articles_only:
  "length (long_entries articles) = min 10 (length articles)
   \<and> long_entries articles = long_entries (take 10 articles)
   \<and> format_digest_message today_str articles date
       = long_header today_str articles date @ concat (long_entries (take 10 articles))
         @ digest_footer
   \<and> length (short_entries articles) = min 8 (length articles)
   \<and> short_entries articles = short_entries (take 8 articles)
   \<and> format_short_digest today_str articles date
       = format_short_digest today_str (take 8 articles) date
   \<and> (send_digest_message today_str articles use_short_format date
        = format_digest_message today_str articles date
      \<or> send_digest_message today_str articles use_short_format date
        = format_short_digest today_str articles date)"
proof -
  have l1: "length (long_entries articles) = min 10 (length articles)"
    by (simp add: long_entries_def length_enumerate1 min.commute)
  have l2: "long_entries articles = long_entries (take 10 articles)"
    by (simp add: long_entries_def)
  have l3: "format_digest_message today_str articles date
       = long_header today_str articles date @ concat (long_entries (take 10 articles))
         @ digest_footer"
    using l2 by (simp add: format_digest_message_def)
  have s1: "length (short_entries articles) = min 8 (length articles)"
    by (simp add: short_entries_def length_enumerate1 min.commute)
  have s2: "short_entries articles = short_entries (take 8 articles)"
    by (simp add: short_entries_def)
  have s3: "format_short_digest today_str articles date
       = format_short_digest today_str (take 8 articles) date"
    using s2 by (simp add: format_short_digest_def)
  have m: "send_digest_message today_str articles use_short_format date
        = format_digest_message today_str articles date
      \<or> send_digest_message today_str articles use_short_format date
        = format_short_digest today_str articles date"
    by (simp add: send_digest_message_def Let_def)
  from l1 l2 l3 s1 s2 s3 m show ?thesis by (intro conjI)
qed

end
